theory Spec2Isabelle
  imports Complex_Main "HOL-Library.Multiset"
begin

section \<open>JavaScript numbers\<close>

text \<open>
  The numbers that the session engine of \<^verbatim>\<open>server.js\<close> stores (scores, the countdown,
  the question cursor, answer indices, time limits) are integer valued and are modelled by
  \<^typ>\<open>int\<close>; this is exact while they stay within \<open>\<plusminus>2^53\<close>. Two expressions leave
  the integers, \<^verbatim>\<open>(p.answerTime / q.timeLimit) * 1000\<close> and
  \<^verbatim>\<open>1000 + Math.random() * 9000\<close>. They are evaluated in IEEE-754 binary64, and each
  operation rounds its exact result to the nearest double, ties to even. \<open>fl64\<close> is that
  rounding on the rationals, for results in the normal range of binary64 (no overflow, no
  subnormals), which covers every quotient and product of integers within \<open>\<plusminus>2^53\<close>.
\<close>

function bitlen :: "int \<Rightarrow> int" where
  "bitlen n = (if n \<le> 0 then 0 else 1 + bitlen (n div 2))"
  by auto
termination
  by (relation "measure nat") auto

declare bitlen.simps [simp del]

definition ilog2 :: "rat \<Rightarrow> int" where
  \<comment> \<open>\<open>\<lfloor>log\<^sub>2 x\<rfloor>\<close> for \<open>x > 0\<close>, from the bit lengths of numerator and denominator\<close>
  "ilog2 x = (case quotient_of x of (p, q) \<Rightarrow>
     let k = bitlen p - bitlen q
     in if 2 powi k \<le> x then k else k - 1)"

definition roundTiesToEven :: "rat \<Rightarrow> int" where
  "roundTiesToEven x = (let f = \<lfloor>x\<rfloor>; r = x - of_int f
     in if r < 1 / 2 then f
        else if 1 / 2 < r then f + 1
        else if even f then f else f + 1)"

definition fl64 :: "rat \<Rightarrow> rat" where
  \<comment> \<open>a 53-bit significand \<open>m\<close> and the exponent \<open>e\<close> of its last bit\<close>
  "fl64 x = (if x = 0 then 0 else
     let e = ilog2 \<bar>x\<bar> - 52; m = roundTiesToEven (\<bar>x\<bar> / 2 powi e)
     in sgn x * of_int m * 2 powi e)"

definition Math_round :: "rat \<Rightarrow> int" where
  \<comment> \<open>\<^verbatim>\<open>Math.round\<close>: the nearest integer, a tie going towards \<open>+\<infinity>\<close>\<close>
  "Math_round x = \<lfloor>x + 1 / 2\<rfloor>"

definition Math_floor :: "rat \<Rightarrow> int" where
  "Math_floor x = \<lfloor>x\<rfloor>"

section \<open>JavaScript strings and values\<close>

text \<open>
  A string is the list of its UTF-16 code units, for code units below 256 (the type
  \<^typ>\<open>char\<close>). \<open>isWhiteSpace\<close> is the white space and line terminator set of
  \<^verbatim>\<open>String.prototype.trim\<close> and \<^verbatim>\<open>parseInt\<close> in that range.
\<close>

definition isWhiteSpace :: "char \<Rightarrow> bool" where
  "isWhiteSpace c = (of_char c \<in> {9, 10, 11, 12, 13, 32, 160 :: nat})"

definition trim :: "string \<Rightarrow> string" where
  "trim s = rev (dropWhile isWhiteSpace (rev (dropWhile isWhiteSpace s)))"

definition lowerChar :: "char \<Rightarrow> char" where
  "lowerChar c = (let n = of_char c :: nat
     in if (65 \<le> n \<and> n \<le> 90) \<or> (192 \<le> n \<and> n \<le> 222 \<and> n \<noteq> 215)
        then char_of (n + 32) else c)"

definition toLowerCase :: "string \<Rightarrow> string" where
  "toLowerCase s = map lowerChar s"

definition isDigit :: "char \<Rightarrow> bool" where
  "isDigit c = (48 \<le> (of_char c :: nat) \<and> (of_char c :: nat) \<le> 57)"

definition digitVal :: "char \<Rightarrow> int" where
  "digitVal c = int (of_char c) - 48"

definition digitChar :: "nat \<Rightarrow> char" where
  "digitChar d = char_of (48 + d)"

function decimal :: "int \<Rightarrow> string" where
  "decimal n = (if n < 10 then [digitChar (nat n)]
                else decimal (n div 10) @ [digitChar (nat (n mod 10))])"
  by auto
termination
  by (relation "measure nat") auto

declare decimal.simps [simp del]

text \<open>
  \<^verbatim>\<open>String(x)\<close> for a number \<open>x\<close> with an integer value. Up to \<open>2^53\<close> every integer is
  a double and prints with all its digits. Above, \<^verbatim>\<open>Number::toString\<close> takes the least
  number \<open>k\<close> of digits for which some \<open>s\<close> with \<open>10^(k-1) \<le> s < 10^k\<close> and some \<open>n\<close> give
  \<open>s \<times> 10^(n-k)\<close> rounding to \<open>x\<close>, and among these the \<open>s \<times> 10^(n-k)\<close> closest to \<open>x\<close>
  (seventeen digits always identify a double). With \<open>n \<le> 21\<close> it prints \<open>s\<close> followed by
  \<open>n - k\<close> zeros, and otherwise the exponent form \<^verbatim>\<open>d.ddde+N\<close> with \<open>N = n - 1\<close>.
\<close>

definition candidates :: "int \<Rightarrow> nat \<Rightarrow> (int \<times> nat) list" where
  \<comment> \<open>the pairs \<open>(s, n)\<close> with \<open>k\<close> digits that round to \<open>x\<close>; \<open>n\<close> is the number of
      digits of \<open>x\<close>, or one more when \<open>x\<close> lies just below a power of ten\<close>
  "candidates x k =
     [(s, n). n \<leftarrow> [length (decimal x), length (decimal x) + 1],
              s \<leftarrow> [x div 10 ^ (n - k), x div 10 ^ (n - k) + 1],
              k \<le> n \<and> 10 ^ (k - 1) \<le> s \<and> s < 10 ^ k \<and>
              fl64 (of_int (s * 10 ^ (n - k))) = of_int x]"

fun closest :: "int \<Rightarrow> nat \<Rightarrow> (int \<times> nat) list \<Rightarrow> (int \<times> nat) option" where
  "closest x k [] = None"
| "closest x k (c # cs) =
     (case closest x k cs of
        None \<Rightarrow> Some c
      | Some d \<Rightarrow>
          (let ec = \<bar>fst c * 10 ^ (snd c - k) - x\<bar>; ed = \<bar>fst d * 10 ^ (snd d - k) - x\<bar>
           in if ec < ed \<or> (ec = ed \<and> even (fst c)) then Some c else Some d))"

definition shortest :: "int \<Rightarrow> (int \<times> nat \<times> nat) option" where
  "shortest x =
     (case List.find (\<lambda>k. candidates x k \<noteq> []) [1 ..< 18] of
        None \<Rightarrow> None
      | Some k \<Rightarrow> (case closest x k (candidates x k) of
                     None \<Rightarrow> None
                   | Some (s, n) \<Rightarrow> Some (s, k, n)))"

definition Number_toString :: "int \<Rightarrow> string" where
  \<comment> \<open>for \<open>0 \<le> x < 2^1024\<close>; an integer above \<open>2^53\<close> stands for the double nearest to it\<close>
  "Number_toString x =
     (if x \<le> 2 ^ 53 then decimal x
      else let y = Math_floor (fl64 (of_int x))
       in case shortest y of
        None \<Rightarrow> decimal y
      | Some (s, k, n) \<Rightarrow>
          if n \<le> 21 then decimal s @ replicate (n - k) CHR ''0''
          else (if k = 1 then decimal s else hd (decimal s) # CHR ''.'' # tl (decimal s))
               @ ''e+'' @ decimal (int (n - 1)))"

definition String_int :: "int \<Rightarrow> string" where
  "String_int n = (if n < 0 then CHR ''-'' # Number_toString (- n) else Number_toString n)"

text \<open>
  The values a parsed message can hold: the results of \<^verbatim>\<open>JSON.parse\<close>, with
  \<open>JUndefined\<close> for a property that is absent. A number is represented by the string
  that \<^verbatim>\<open>String\<close> gives for it (\<^verbatim>\<open>"2"\<close>, \<^verbatim>\<open>"2.5"\<close>, \<^verbatim>\<open>"1e+21"\<close>), which
  determines it up to the sign of zero; \<^verbatim>\<open>JSON.parse\<close> yields no \<^verbatim>\<open>NaN\<close>. \<open>JObj\<close>
  lists the own properties of an object.
\<close>

datatype js =
    JUndefined | JNull | JBool bool | JNum string | JStr string
  | JArr "js list" | JObj "(string \<times> js) list"

datatype error = TypeError

definition truthy :: "js \<Rightarrow> bool" where
  \<comment> \<open>the numbers \<open>0\<close> and \<open>-0\<close> both print as \<^verbatim>\<open>"0"\<close>\<close>
  "truthy v = (case v of
       JUndefined \<Rightarrow> False | JNull \<Rightarrow> False | JBool b \<Rightarrow> b
     | JNum s \<Rightarrow> s \<noteq> ''0'' | JStr s \<Rightarrow> s \<noteq> [] | JArr xs \<Rightarrow> True | JObj kvs \<Rightarrow> True)"

definition get :: "js \<Rightarrow> string \<Rightarrow> error + js" where
  \<comment> \<open>\<^verbatim>\<open>v.k\<close> for a key \<open>k\<close> that no prototype has, so that only an own property of an
      object can hold it (the server reads \<^verbatim>\<open>type\<close>, \<^verbatim>\<open>data\<close>, \<^verbatim>\<open>pin\<close>, \<^verbatim>\<open>name\<close> and
      \<^verbatim>\<open>answer\<close>); reading a property of \<^verbatim>\<open>null\<close> or \<^verbatim>\<open>undefined\<close> throws\<close>
  "get v k = (case v of
       JUndefined \<Rightarrow> Inl TypeError
     | JNull \<Rightarrow> Inl TypeError
     | JObj kvs \<Rightarrow> (case map_of kvs k of None \<Rightarrow> Inr JUndefined | Some x \<Rightarrow> Inr x)
     | _ \<Rightarrow> Inr JUndefined)"

definition get_opt :: "js \<Rightarrow> string \<Rightarrow> js" where
  \<comment> \<open>\<^verbatim>\<open>v?.k\<close>\<close>
  "get_opt v k = (case get v k of Inl e \<Rightarrow> JUndefined | Inr x \<Rightarrow> x)"

fun join_strings :: "(error + string) list \<Rightarrow> error + string" where
  \<comment> \<open>the elements of \<^verbatim>\<open>Array.prototype.join\<close>, converted from left to right and
      separated by commas; the first conversion that throws ends it\<close>
  "join_strings [] = Inr []"
| "join_strings [r] = r"
| "join_strings (r # rs) =
     (case r of
        Inl e \<Rightarrow> Inl e
      | Inr s \<Rightarrow> (case join_strings rs of Inl e \<Rightarrow> Inl e | Inr t \<Rightarrow> Inr (s @ '','' @ t)))"

fun String_js :: "js \<Rightarrow> error + string" where
  \<comment> \<open>\<^verbatim>\<open>String(v)\<close>. An array is joined, with \<^verbatim>\<open>null\<close> as the empty string. An object
      made by \<^verbatim>\<open>JSON.parse\<close> prints as \<^verbatim>\<open>[object Object]\<close>, unless it has an own
      property \<^verbatim>\<open>toString\<close>: that is not a function, \<^verbatim>\<open>valueOf\<close> gives no primitive
      value either, and the conversion throws\<close>
  "String_js JUndefined = Inr ''undefined''"
| "String_js JNull = Inr ''null''"
| "String_js (JBool b) = Inr (if b then ''true'' else ''false'')"
| "String_js (JNum s) = Inr s"
| "String_js (JStr s) = Inr s"
| "String_js (JArr xs) =
     join_strings (map (\<lambda>v. case v of JUndefined \<Rightarrow> Inr [] | JNull \<Rightarrow> Inr [] | _ \<Rightarrow> String_js v) xs)"
| "String_js (JObj kvs) =
     (if map_of kvs ''toString'' = None then Inr ''[object Object]'' else Inl TypeError)"

definition parseInt_string :: "string \<Rightarrow> int option" where
  \<comment> \<open>\<^verbatim>\<open>parseInt(s, 10)\<close>; \<open>None\<close> is \<^verbatim>\<open>NaN\<close>. The result is the exact value of the
      digits; the double that JavaScript makes of it compares in the same way with \<open>1\<close> and
      with the length of an array, and it is stored only when it lies between them\<close>
  "parseInt_string s =
     (let s1 = dropWhile isWhiteSpace s;
          neg = (s1 \<noteq> [] \<and> hd s1 = CHR ''-'');
          s2 = (if s1 \<noteq> [] \<and> (hd s1 = CHR ''-'' \<or> hd s1 = CHR ''+'') then tl s1 else s1);
          ds = takeWhile isDigit s2;
          n = foldl (\<lambda>acc c. acc * 10 + digitVal c) 0 ds
      in if ds = [] then None else Some (if neg then - n else n))"

definition parseInt :: "js \<Rightarrow> error + int option" where
  \<comment> \<open>\<^verbatim>\<open>parseInt(v, 10)\<close> converts \<open>v\<close> to a string first\<close>
  "parseInt v = (case String_js v of Inl e \<Rightarrow> Inl e | Inr s \<Rightarrow> Inr (parseInt_string s))"

section \<open>The session\<close>

datatype phase = Idle | Lobby | Question | Reveal | Leaderboard

record question_rec =
  question :: string
  qtype :: string
  options :: "string list"
  correct :: "int option"  \<comment> \<open>\<^verbatim>\<open>parseInt(q.correct, 10)\<close>, \<open>None\<close> when it is \<^verbatim>\<open>NaN\<close>\<close>
  timeLimit :: int  \<comment> \<open>\<^verbatim>\<open>parseInt(q.time_limit, 10) || 20\<close>, so never \<open>0\<close>\<close>

record player =
  name :: string
  ws :: nat  \<comment> \<open>the connection, by its identity\<close>
  score :: int
  answer :: "int option"
  answerTime :: "int option"
  lastPoints :: int

record game_state =
  pin :: "string option"
  state :: phase
  players :: "(nat \<times> player) list"  \<comment> \<open>the \<^verbatim>\<open>Map\<close>, in insertion order\<close>
  questions :: "question_rec list"
  currentQuestion :: int
  timer :: "nat option"  \<comment> \<open>the handle of the countdown interval\<close>
  timeRemaining :: int
  hostWs :: "nat option"
  answerCount :: int

datatype message =
    M_lobby "string option" "string list"
  | M_question int nat string string "string list" int
  | M_timer int
  | M_results "int option" "int option list" "string list" "(string \<times> int) list" bool
  | M_result "int option" "int option" int int bool
  | M_leaderboard "(string \<times> int) list"
  | M_joined string
  | M_player_joined string nat "string list"
  | M_player_left string nat "string list"
  | M_answer_received
  | M_answer_count int nat
  | M_host_disconnected
  | M_error string

text \<open>
  The whole server: the \<^verbatim>\<open>game\<close> object, the module variables \<^verbatim>\<open>questions\<close> and
  \<^verbatim>\<open>nextPlayerId\<close>, the variable \<^verbatim>\<open>playerId\<close> in the closure of each player
  connection, and what the environment holds: the \<^verbatim>\<open>readyState\<close> of every connection, the
  intervals that are scheduled, and the messages handed to \<^verbatim>\<open>ws.send\<close> so far, oldest
  first.
\<close>

record world =
  game :: game_state
  loaded :: "question_rec list"
  nextPlayerId :: nat
  playerId :: "nat \<Rightarrow> nat option"
  readyState :: "nat \<Rightarrow> nat"
  intervals :: "nat list"
  nextInterval :: nat
  sent :: "(nat \<times> message) list"

definition initial :: "question_rec list \<Rightarrow> (nat \<Rightarrow> nat) \<Rightarrow> world" where
  "initial qs rs = \<lparr>
     game = \<lparr> pin = None, state = Idle, players = [], questions = qs, currentQuestion = - 1,
              timer = None, timeRemaining = 0, hostWs = None, answerCount = 0 \<rparr>,
     loaded = qs, nextPlayerId = 1, playerId = (\<lambda>c. None), readyState = rs,
     intervals = [], nextInterval = 0, sent = [] \<rparr>"

subsection \<open>Helpers\<close>

definition send :: "nat \<Rightarrow> message \<Rightarrow> world \<Rightarrow> world" where
  "send c m w = (if readyState w c = 1 then w\<lparr>sent := sent w @ [(c, m)]\<rparr> else w)"

primrec send_players :: "(player \<Rightarrow> message) \<Rightarrow> (nat \<times> player) list \<Rightarrow> world \<Rightarrow> world" where
  \<comment> \<open>\<^verbatim>\<open>players.forEach(p => send(p.ws, type, data))\<close>, the data depending on \<open>p\<close>\<close>
  "send_players f [] w = w"
| "send_players f (kp # kps) w = send_players f kps (send (ws (snd kp)) (f (snd kp)) w)"

definition sendToHost :: "message \<Rightarrow> world \<Rightarrow> world" where
  "sendToHost m w = (case hostWs (game w) of None \<Rightarrow> w | Some h \<Rightarrow> send h m w)"

definition broadcast :: "message \<Rightarrow> world \<Rightarrow> world" where
  "broadcast m w = sendToHost m (send_players (\<lambda>p. m) (players (game w)) w)"

definition clearInterval :: "nat option \<Rightarrow> world \<Rightarrow> world" where
  "clearInterval h w = (case h of None \<Rightarrow> w | Some i \<Rightarrow> w\<lparr>intervals := removeAll i (intervals w)\<rparr>)"

text \<open>
  \<^verbatim>\<open>Array.prototype.sort\<close> is a stable sort; \<open>cmp a b \<le> 0\<close> keeps \<open>a\<close> before \<open>b\<close>.
\<close>

fun insert_sorted :: "('a \<Rightarrow> 'a \<Rightarrow> int) \<Rightarrow> 'a \<Rightarrow> 'a list \<Rightarrow> 'a list" where
  "insert_sorted cmp x [] = [x]"
| "insert_sorted cmp x (y # ys) =
     (if cmp x y \<le> 0 then x # y # ys else y # insert_sorted cmp x ys)"

definition Array_sort :: "('a \<Rightarrow> 'a \<Rightarrow> int) \<Rightarrow> 'a list \<Rightarrow> 'a list" where
  "Array_sort cmp xs = foldr (insert_sorted cmp) xs []"

definition getLeaderboard :: "game_state \<Rightarrow> (string \<times> int) list" where
  "getLeaderboard g =
     Array_sort (\<lambda>a b. snd b - snd a) (map (\<lambda>(k, p). (name p, score p)) (players g))"

definition current :: "game_state \<Rightarrow> question_rec option" where
  \<comment> \<open>\<^verbatim>\<open>game.questions[game.currentQuestion]\<close>, \<open>None\<close> when it is \<^verbatim>\<open>undefined\<close>\<close>
  "current g = (if 0 \<le> currentQuestion g \<and> currentQuestion g < int (length (questions g))
     then Some (questions g ! nat (currentQuestion g)) else None)"

fun Map_set :: "nat \<Rightarrow> player \<Rightarrow> (nat \<times> player) list \<Rightarrow> (nat \<times> player) list" where
  "Map_set k v [] = [(k, v)]"
| "Map_set k v (kp # kps) = (if fst kp = k then (k, v) # kps else kp # Map_set k v kps)"

definition Map_delete :: "nat \<Rightarrow> (nat \<times> player) list \<Rightarrow> (nat \<times> player) list" where
  "Map_delete k kps = filter (\<lambda>kp. fst kp \<noteq> k) kps"

definition names :: "game_state \<Rightarrow> string list" where
  \<comment> \<open>\<^verbatim>\<open>Array.from(game.players.values()).map(p => p.name)\<close>\<close>
  "names g = map (\<lambda>kp. name (snd kp)) (players g)"

subsection \<open>Reset\<close>

text \<open>
  \<open>r\<close> is the value of \<^verbatim>\<open>Math.random()\<close> and \<open>src\<close> the result of
  \<^verbatim>\<open>loadQuestions()\<close>, \<open>None\<close> when it throws.
\<close>

definition resetGame :: "rat \<Rightarrow> question_rec list option \<Rightarrow> world \<Rightarrow> world" where
  "resetGame r src w =
     (let w1 = clearInterval (timer (game w)) w;
          qs = (case src of Some new \<Rightarrow> new | None \<Rightarrow> loaded w1)
      in w1\<lparr> loaded := qs,
              game := (game w1)\<lparr>
                pin := Some (String_int (Math_floor (fl64 (1000 + fl64 (r * 9000))))),
                state := Lobby,
                players := [],
                questions := qs,
                currentQuestion := - 1,
                timer := None,
                timeRemaining := 0,
                answerCount := 0 \<rparr> \<rparr>)"

subsection \<open>Questions, reveal and the final leaderboard\<close>

definition endGame :: "world \<Rightarrow> world" where
  "endGame w =
     (let g1 = (game w)\<lparr>state := Leaderboard\<rparr>
      in broadcast (M_leaderboard (getLeaderboard g1)) (w\<lparr>game := g1\<rparr>))"

text \<open>
  A reaction either returns, \<open>Inr\<close> the server after it, or throws, \<open>Inl\<close> the error with
  the server as the assignments before the throw left it. No handler of the file catches
  such an error.
\<close>

type_synonym outcome = "(error \<times> world) + world"


definition startQuestion :: "world \<Rightarrow> outcome" where
  "startQuestion w =
     (let g1 = (game w)\<lparr>currentQuestion := currentQuestion (game w) + 1\<rparr>
      in if int (length (questions g1)) \<le> currentQuestion g1 then Inr (endGame (w\<lparr>game := g1\<rparr>))
         else case current g1 of
           None \<Rightarrow> Inl (TypeError, w\<lparr>game := g1\<lparr>state := Question, answerCount := 0\<rparr>\<rparr>)
         | Some q \<Rightarrow>
            (let g2 = g1\<lparr> state := Question, answerCount := 0, timeRemaining := timeLimit q,
                         players := map (\<lambda>kp. (fst kp, (snd kp)\<lparr>answer := None, answerTime := None\<rparr>))
                                        (players g1) \<rparr>;
                 w1 = broadcast (M_question (currentQuestion g2) (length (questions g2))
                                   (question q) (qtype q) (options q) (timeLimit q))
                                (w\<lparr>game := g2\<rparr>);
                 h = nextInterval w1
             in Inr (w1\<lparr> game := (game w1)\<lparr>timer := Some h\<rparr>,
                          intervals := intervals w1 @ [h],
                          nextInterval := h + 1 \<rparr>)))"

definition timeBonus :: "question_rec \<Rightarrow> player \<Rightarrow> int" where
  \<comment> \<open>\<^verbatim>\<open>Math.round((p.answerTime / q.timeLimit) * 1000)\<close>; \<^verbatim>\<open>null\<close> counts as \<open>0\<close>\<close>
  "timeBonus q p =
     Math_round (fl64 (fl64 (of_int (case answerTime p of None \<Rightarrow> 0 | Some a \<Rightarrow> a)
                              / of_int (timeLimit q)) * 1000))"

definition reveal_player :: "question_rec \<Rightarrow> player \<Rightarrow> player" where
  "reveal_player q p =
     (case answer p of
        Some a \<Rightarrow>
          if Some a = correct q
          then (let p1 = p\<lparr>lastPoints := 1000 + timeBonus q p\<rparr>
                in p1\<lparr>score := score p1 + lastPoints p1\<rparr>)
          else p\<lparr>lastPoints := 0\<rparr>
      | None \<Rightarrow> p\<lparr>lastPoints := 0\<rparr>)"

definition bump :: "int option list \<Rightarrow> int \<Rightarrow> int option list" where
  \<comment> \<open>\<^verbatim>\<open>distribution[k]++\<close>. An entry \<open>None\<close> is a hole or \<^verbatim>\<open>NaN\<close>, both \<^verbatim>\<open>null\<close>
      in the message; an index beyond the end extends the array, a negative one adds no element\<close>
  "bump d k =
     (if 0 \<le> k \<and> nat k < length d then d[nat k := map_option (\<lambda>c. c + 1) (d ! nat k)]
      else if 0 \<le> k then d @ replicate (nat k - length d) None @ [None]
      else d)"

definition distribution :: "question_rec \<Rightarrow> (nat \<times> player) list \<Rightarrow> int option list" where
  "distribution q kps =
     foldl (\<lambda>d kp. case answer (snd kp) of None \<Rightarrow> d | Some a \<Rightarrow> bump d (a - 1))
           (replicate (length (options q)) (Some 0)) kps"

definition revealAnswer :: "world \<Rightarrow> outcome" where
  "revealAnswer w =
     (if state (game w) \<noteq> Question then Inr w
      else
        let w1 = clearInterval (timer (game w)) w;
            g1 = (game w1)\<lparr>timer := None, state := Reveal\<rparr>
        in case current g1 of
             None \<Rightarrow> Inl (TypeError, w1\<lparr>game := g1\<rparr>)
           | Some q \<Rightarrow>
              (let dist = distribution q (players g1);
                   g2 = g1\<lparr>players := map (\<lambda>kp. (fst kp, reveal_player q (snd kp))) (players g1)\<rparr>;
                   isLast = (int (length (questions g2)) - 1 \<le> currentQuestion g2);
                   w2 = sendToHost (M_results (correct q) dist (options q)
                                      (take 5 (getLeaderboard g2)) isLast)
                                   (w1\<lparr>game := g2\<rparr>)
               in Inr (send_players
                         (\<lambda>p. M_result (correct q) (answer p) (lastPoints p) (score p) isLast)
                         (players g2) w2)))"

definition tick :: "world \<Rightarrow> outcome" where
  \<comment> \<open>the callback of the countdown interval\<close>
  "tick w =
     (let g1 = (game w)\<lparr>timeRemaining := timeRemaining (game w) - 1\<rparr>;
          w1 = broadcast (M_timer (timeRemaining g1)) (w\<lparr>game := g1\<rparr>)
      in if timeRemaining g1 \<le> 0
         then (let w2 = clearInterval (timer (game w1)) w1
               in revealAnswer (w2\<lparr>game := (game w2)\<lparr>timer := None\<rparr>\<rparr>))
         else Inr w1)"

subsection \<open>The host connection\<close>

definition handleHost :: "nat \<Rightarrow> rat \<Rightarrow> question_rec list option \<Rightarrow> world \<Rightarrow> world" where
  "handleHost c r src w =
     (let w1 = send_players (\<lambda>p. M_host_disconnected) (players (game w)) w;
          w2 = resetGame r src (w1\<lparr>game := (game w1)\<lparr>hostWs := Some c\<rparr>\<rparr>)
      in send c (M_lobby (pin (game w2)) (names (game w2))) w2)"

text \<open>
  The \<^verbatim>\<open>message\<close> handler of a host connection; \<open>raw\<close> is the result of
  \<^verbatim>\<open>JSON.parse\<close>, \<open>None\<close> when it throws.
\<close>

definition host_message ::
  "nat \<Rightarrow> js option \<Rightarrow> rat \<Rightarrow> question_rec list option \<Rightarrow> world \<Rightarrow> outcome" where
  "host_message c raw r src w =
     (case raw of
        None \<Rightarrow> Inr w
      | Some msg \<Rightarrow>
         (case get msg ''type'' of
            Inl e \<Rightarrow> Inl (e, w)
          | Inr t \<Rightarrow>
              if t = JStr ''start'' \<and> state (game w) = Lobby then
                (if length (players (game w)) = 0
                 then Inr (send c (M_error ''Need at least 1 player'') w)
                 else startQuestion w)
              else if t = JStr ''next'' \<and> state (game w) = Reveal then startQuestion w
              else if t = JStr ''reset'' then
                (let w1 = resetGame r src w
                 in Inr (send c (M_lobby (pin (game w1)) []) w1))
              else Inr w))"

definition host_close :: "nat \<Rightarrow> world \<Rightarrow> world" where
  "host_close c w =
     (if hostWs (game w) = Some c
      then (let w1 = w\<lparr>game := (game w)\<lparr>hostWs := None\<rparr>\<rparr>
            in send_players (\<lambda>p. M_host_disconnected) (players (game w1)) w1)
      else w)"

subsection \<open>A player connection\<close>

definition handlePlayer :: "nat \<Rightarrow> world \<Rightarrow> world" where
  \<comment> \<open>\<^verbatim>\<open>let playerId = null\<close>\<close>
  "handlePlayer c w = w\<lparr>playerId := (playerId w)(c := None)\<rparr>"

definition join :: "nat \<Rightarrow> js \<Rightarrow> world \<Rightarrow> outcome" where
  "join c msg w =
     (case get msg ''data'' of
        Inl e \<Rightarrow> Inl (e, w)
      | Inr d0 \<Rightarrow>
         (let d = (if truthy d0 then d0 else JObj []);
              pin_v = get_opt d ''pin'';
              name_v = get_opt d ''name''
          in if \<not> truthy pin_v \<or> \<not> truthy name_v
             then Inr (send c (M_error ''PIN and name required'') w)
             else case String_js pin_v of
               Inl e \<Rightarrow> Inl (e, w)
             | Inr pin_s \<Rightarrow>
             if Some pin_s \<noteq> pin (game w)
             then Inr (send c (M_error ''Invalid PIN'') w)
             else if state (game w) \<noteq> Lobby
             then Inr (send c (M_error ''Game already in progress'') w)
             else case name_v of
               JStr nm \<Rightarrow>
                 (let trimmedName = take 20 (trim nm)
                  in if trimmedName = []
                     then Inr (send c (M_error ''Name cannot be empty'') w)
                     else if \<exists>kp \<in> set (players (game w)).
                               toLowerCase (name (snd kp)) = toLowerCase trimmedName
                     then Inr (send c (M_error ''Name already taken'') w)
                     else
                       (let pid = nextPlayerId w;
                            g1 = (game w)\<lparr>players :=
                                   Map_set pid \<lparr> name = trimmedName, ws = c, score = 0, answer = None,
                                                 answerTime = None, lastPoints = 0 \<rparr>
                                           (players (game w))\<rparr>;
                            w1 = w\<lparr> playerId := (playerId w)(c := Some pid),
                                    nextPlayerId := pid + 1, game := g1 \<rparr>;
                            w2 = send c (M_joined trimmedName) w1
                        in Inr (sendToHost (M_player_joined trimmedName (length (players g1))
                                              (names g1)) w2)))
             | _ \<Rightarrow> Inl (TypeError, w)))"

definition answer_message :: "nat \<Rightarrow> js \<Rightarrow> world \<Rightarrow> outcome" where
  "answer_message c msg w =
     (case playerId w c of
        None \<Rightarrow> Inr w
      | Some pid \<Rightarrow>
          if state (game w) \<noteq> Question then Inr w
          else case map_of (players (game w)) pid of
            None \<Rightarrow> Inr w
          | Some player \<Rightarrow>
              if answer player \<noteq> None then Inr w
              else case get msg ''data'' of
                Inl e \<Rightarrow> Inl (e, w)
              | Inr d \<Rightarrow>
                 (case parseInt (get_opt d ''answer'') of
                    Inl e \<Rightarrow> Inl (e, w)
                  | Inr None \<Rightarrow> Inr w
                  | Inr (Some answerIndex) \<Rightarrow>
                      if answerIndex < 1 then Inr w
                      else case current (game w) of
                        None \<Rightarrow> Inl (TypeError, w)
                      | Some q \<Rightarrow>
                          if int (length (options q)) < answerIndex then Inr w
                          else
                            (let player1 = player\<lparr> answer := Some answerIndex,
                                                   answerTime := Some (timeRemaining (game w)) \<rparr>;
                                 g1 = (game w)\<lparr> players := Map_set pid player1 (players (game w)),
                                                answerCount := answerCount (game w) + 1 \<rparr>;
                                 w1 = send c M_answer_received (w\<lparr>game := g1\<rparr>);
                                 w2 = sendToHost (M_answer_count (answerCount g1)
                                                    (length (players g1))) w1
                             in if int (length (players g1)) \<le> answerCount g1
                                then revealAnswer w2 else Inr w2)))"

definition player_message :: "nat \<Rightarrow> js option \<Rightarrow> world \<Rightarrow> outcome" where
  "player_message c raw w =
     (case raw of
        None \<Rightarrow> Inr w
      | Some msg \<Rightarrow>
         (case get msg ''type'' of
            Inl e \<Rightarrow> Inl (e, w)
          | Inr t \<Rightarrow>
              if t = JStr ''join'' then join c msg w
              else if t = JStr ''answer'' then answer_message c msg w
              else Inr w))"

definition player_close :: "nat \<Rightarrow> world \<Rightarrow> world" where
  "player_close c w =
     (case playerId w c of
        None \<Rightarrow> w
      | Some pid \<Rightarrow>
          if state (game w) = Lobby then
            (let player = map_of (players (game w)) pid;
                 g1 = (game w)\<lparr>players := Map_delete pid (players (game w))\<rparr>;
                 w1 = w\<lparr>game := g1\<rparr>
             in case player of
                  None \<Rightarrow> w1
                | Some p \<Rightarrow> sendToHost (M_player_left (name p) (length (players g1)) (names g1)) w1)
          else w)"

subsection \<open>The question source\<close>

definition csv_changed :: "string \<Rightarrow> question_rec list option \<Rightarrow> world \<Rightarrow> world" where
  \<comment> \<open>the \<^verbatim>\<open>fs.watch\<close> callback; \<open>src\<close> is the result of \<^verbatim>\<open>loadQuestions()\<close>\<close>
  "csv_changed eventType src w =
     (if eventType \<noteq> ''change'' then w
      else case src of
        None \<Rightarrow> w
      | Some updated \<Rightarrow>
         (let w1 = w\<lparr>loaded := updated\<rparr>
          in if state (game w1) = Idle \<or> state (game w1) = Lobby
             then w1\<lparr>game := (game w1)\<lparr>questions := updated\<rparr>\<rparr> else w1))"

subsection \<open>Events\<close>

text \<open>
  Every reaction of the server runs to completion; \<open>step\<close> is one reaction. An interval
  fires only while it is scheduled.
\<close>

datatype event =
    HostConnect nat rat "question_rec list option"
  | HostMessage nat "js option" rat "question_rec list option"
  | HostClose nat
  | PlayerConnect nat
  | PlayerMessage nat "js option"
  | PlayerClose nat
  | Tick nat
  | CsvChange string "question_rec list option"

fun step :: "event \<Rightarrow> world \<Rightarrow> outcome" where
  "step (HostConnect c r src) w = Inr (handleHost c r src w)"
| "step (HostMessage c raw r src) w = host_message c raw r src w"
| "step (HostClose c) w = Inr (host_close c w)"
| "step (PlayerConnect c) w = Inr (handlePlayer c w)"
| "step (PlayerMessage c raw) w = player_message c raw w"
| "step (PlayerClose c) w = Inr (player_close c w)"
| "step (Tick h) w = (if h \<in> set (intervals w) then tick w else Inr w)"
| "step (CsvChange eventType src) w = Inr (csv_changed eventType src w)"

subsection \<open>Sample sessions\<close>

definition ex_q :: question_rec where
  "ex_q = \<lparr> question = ''2 + 2'', qtype = ''mc'', options = [''3'', ''4'', ''5'', ''6''],
            correct = Some 2, timeLimit = 20 \<rparr>"

definition ex_p :: "string \<Rightarrow> nat \<Rightarrow> int \<Rightarrow> int option \<Rightarrow> int option \<Rightarrow> player" where
  "ex_p nm c sc a t = \<lparr> name = nm, ws = c, score = sc, answer = a, answerTime = t, lastPoints = 0 \<rparr>"

definition ex_world :: "phase \<Rightarrow> (nat \<times> player) list \<Rightarrow> nat option \<Rightarrow> world" where
  \<comment> \<open>one question, the host on connection \<open>0\<close>, players \<open>1\<close> and \<open>2\<close> on connections \<open>1\<close> and \<open>2\<close>\<close>
  "ex_world ph kps t = \<lparr>
     game = \<lparr> pin = Some ''4821'', state = ph, players = kps, questions = [ex_q],
              currentQuestion = 0, timer = t, timeRemaining = 15, hostWs = Some 0,
              answerCount = 0 \<rparr>,
     loaded = [ex_q], nextPlayerId = 3,
     playerId = (\<lambda>c. if c = 1 then Some 1 else if c = 2 then Some 2 else None),
     readyState = (\<lambda>c. 1),
     intervals = (case t of None \<Rightarrow> [] | Some h \<Rightarrow> [h]), nextInterval = 1, sent = [] \<rparr>"

definition ex_slow :: world where
  \<comment> \<open>a question with a limit of 400 seconds, answered correctly with 201 seconds left\<close>
  "ex_slow = (let w = ex_world Question [(1, ex_p ''ann'' 1 0 (Some 2) (Some 201))] (Some 0)
     in w\<lparr>game := (game w)\<lparr>questions := [ex_q\<lparr>timeLimit := 400\<rparr>]\<rparr>\<rparr>)"

definition ex_final :: game_state where
  \<comment> \<open>\<open>A\<close>, \<open>B\<close> and \<open>C\<close> joined in this order and hold 300, 500 and 500 points\<close>
  "ex_final = game (ex_world Leaderboard
     [(1, ex_p ''A'' 1 300 None None), (2, ex_p ''B'' 2 500 None None),
      (3, ex_p ''C'' 3 500 None None)] None)"




definition ex_asking :: world where
  \<comment> \<open>the question is open, 15 seconds remain, nobody has answered\<close>
  "ex_asking = ex_world Question
     [(1, ex_p ''ann'' 1 0 None None), (2, ex_p ''bob'' 2 0 None None)] (Some 0)"

definition data_pin :: "js \<Rightarrow> js" where
  \<comment> \<open>\<open>pin\<close> of \<^verbatim>\<open>const { pin, name } = msg.data || {}\<close>\<close>
  "data_pin msg = (let d0 = get_opt msg ''data'' in get_opt (if truthy d0 then d0 else JObj []) ''pin'')"

definition data_name :: "js \<Rightarrow> js" where
  "data_name msg = (let d0 = get_opt msg ''data'' in get_opt (if truthy d0 then d0 else JObj []) ''name'')"

definition join_msg :: "js \<Rightarrow> js \<Rightarrow> js" where
  "join_msg p n = JObj [(''type'', JStr ''join''), (''data'', JObj [(''pin'', p), (''name'', n)])]"

definition ex_lobby :: world where
  \<comment> \<open>the lobby with the join code 4821 and one player, \<open>ann\<close>\<close>
  "ex_lobby = ex_world Lobby [(1, ex_p ''ann'' 1 0 None None)] None"


fun is_reset :: "event \<Rightarrow> bool" where
  \<comment> \<open>the events that call \<open>resetGame\<close>: a host connection and the host's \<^verbatim>\<open>reset\<close> message\<close>
  "is_reset (HostConnect c r src) = True"
| "is_reset (HostMessage c raw r src) =
     (case raw of None \<Rightarrow> False | Some msg \<Rightarrow> get msg ''type'' = Inr (JStr ''reset''))"
| "is_reset e = False"

fun run :: "event list \<Rightarrow> world \<Rightarrow> outcome" where
  \<comment> \<open>the reactions to a sequence of events, up to the first one that throws\<close>
  "run [] w = Inr w"
| "run (e # es) w = (case step e w of Inl err \<Rightarrow> Inl err | Inr w' \<Rightarrow> run es w')"

definition next_msg :: js where
  "next_msg = JObj [(''type'', JStr ''next'')]"

definition ex_revealed :: world where
  \<comment> \<open>the only question of the bank has been revealed\<close>
  "ex_revealed = ex_world Reveal
     [(1, ex_p ''ann'' 1 300 (Some 1) (Some 9)), (2, ex_p ''bob'' 2 1450 (Some 2) (Some 9))] None"

definition ex_long_join :: js where
  "ex_long_join = join_msg (JStr ''4821'') (JStr ''  Maximilian Alexander the Third  '')"

definition ex_reset_msg :: js where
  "ex_reset_msg = JObj [(''type'', JStr ''reset'')]"

fun random_of :: "event \<Rightarrow> rat" where
  \<comment> \<open>the value of \<^verbatim>\<open>Math.random()\<close> an event supplies to \<open>resetGame\<close>\<close>
  "random_of (HostConnect c r src) = r"
| "random_of (HostMessage c raw r src) = r"
| "random_of e = 0"

definition four_digit_code :: "string option \<Rightarrow> bool" where
  \<comment> \<open>a string of four decimal digits that reads as a number in \<open>[1000, 9999]\<close>\<close>
  "four_digit_code p =
     (case p of
        None \<Rightarrow> False
      | Some s \<Rightarrow> length s = 4 \<and> list_all isDigit s \<and>
          (case parseInt_string s of None \<Rightarrow> False | Some n \<Rightarrow> 1000 \<le> n \<and> n \<le> 9999))"

definition fresh_lobby :: "game_state \<Rightarrow> bool" where
  \<comment> \<open>the session right after a reset, in the words of the specification\<close>
  "fresh_lobby g =
     (four_digit_code (pin g) \<and> players g = [] \<and> currentQuestion g = - 1 \<and>
      state g = Lobby \<and> answerCount g = 0 \<and> timer g = None)"

section \<open>Properties\<close>

subsection \<open>Sending leaves the session alone\<close>

lemma send_fields [simp]:
  "game (send c m w) = game w"
  "loaded (send c m w) = loaded w"
  "nextPlayerId (send c m w) = nextPlayerId w"
  "playerId (send c m w) = playerId w"
  "readyState (send c m w) = readyState w"
  "intervals (send c m w) = intervals w"
  "nextInterval (send c m w) = nextInterval w"
  by (simp_all add: send_def)

lemma sent_send: "sent (send c m w) = sent w @ (if readyState w c = 1 then [(c, m)] else [])"
  by (simp add: send_def)

lemma send_players_fields [simp]:
  "game (send_players f kps w) = game w"
  "loaded (send_players f kps w) = loaded w"
  "nextPlayerId (send_players f kps w) = nextPlayerId w"
  "playerId (send_players f kps w) = playerId w"
  "readyState (send_players f kps w) = readyState w"
  "intervals (send_players f kps w) = intervals w"
  "nextInterval (send_players f kps w) = nextInterval w"
  by (induction kps arbitrary: w; simp)+

lemma sent_send_players:
  "sent (send_players f kps w) =
     sent w @ map (\<lambda>kp. (ws (snd kp), f (snd kp)))
                  (filter (\<lambda>kp. readyState w (ws (snd kp)) = 1) kps)"
  by (induction kps arbitrary: w) (simp_all add: sent_send)

lemma sendToHost_fields [simp]:
  "game (sendToHost m w) = game w"
  "loaded (sendToHost m w) = loaded w"
  "nextPlayerId (sendToHost m w) = nextPlayerId w"
  "playerId (sendToHost m w) = playerId w"
  "readyState (sendToHost m w) = readyState w"
  "intervals (sendToHost m w) = intervals w"
  "nextInterval (sendToHost m w) = nextInterval w"
  by (simp_all add: sendToHost_def split: option.splits)

lemma sent_sendToHost:
  "sent (sendToHost m w) =
     sent w @ (case hostWs (game w) of None \<Rightarrow> []
               | Some h \<Rightarrow> if readyState w h = 1 then [(h, m)] else [])"
  by (simp add: sendToHost_def sent_send split: option.splits)

lemma broadcast_fields [simp]:
  "game (broadcast m w) = game w"
  "loaded (broadcast m w) = loaded w"
  "nextPlayerId (broadcast m w) = nextPlayerId w"
  "playerId (broadcast m w) = playerId w"
  "readyState (broadcast m w) = readyState w"
  "intervals (broadcast m w) = intervals w"
  "nextInterval (broadcast m w) = nextInterval w"
  by (simp_all add: broadcast_def)

lemma clearInterval_fields [simp]:
  "game (clearInterval h w) = game w"
  "loaded (clearInterval h w) = loaded w"
  "nextPlayerId (clearInterval h w) = nextPlayerId w"
  "playerId (clearInterval h w) = playerId w"
  "readyState (clearInterval h w) = readyState w"
  "nextInterval (clearInterval h w) = nextInterval w"
  "sent (clearInterval h w) = sent w"
  by (simp_all add: clearInterval_def split: option.splits)

lemma intervals_clearInterval:
  "intervals (clearInterval h w) = (case h of None \<Rightarrow> intervals w | Some i \<Rightarrow> removeAll i (intervals w))"
  by (simp add: clearInterval_def split: option.splits)

subsection \<open>Reveal\<close>

lemma revealAnswer_not_question: "state (game w) \<noteq> Question \<Longrightarrow> revealAnswer w = Inr w"
  by (simp add: revealAnswer_def)

lemma revealAnswer_result:
  assumes "revealAnswer w = Inr w'" and "state (game w) = Question"
  shows "state (game w') = Reveal" and "timer (game w') = None"
    and "intervals w' = (case timer (game w) of None \<Rightarrow> intervals w | Some i \<Rightarrow> removeAll i (intervals w))"
  using assms
  by (auto simp: revealAnswer_def Let_def intervals_clearInterval split: option.splits if_splits)

text \<open>
  Claim C2. The transition into reveal is idempotent. Outside phase \<open>Question\<close> a call of
  \<open>revealAnswer\<close> returns the server as it was: no score, no field of the session and no
  message changes. A call that performs the transition leaves phase \<open>Question\<close>, so a
  second call is such a no-op, and it cancels the countdown, so a tick of that interval no
  longer reaches the server.
\<close>

theorem reveal_idempotent:
  "(state (game w) \<noteq> Question \<longrightarrow> revealAnswer w = Inr w) \<and>
   (\<forall>w'. revealAnswer w = Inr w' \<longrightarrow>
      state (game w') \<noteq> Question \<and> revealAnswer w' = Inr w' \<and>
      (\<forall>h. state (game w) = Question \<and> timer (game w) = Some h \<longrightarrow> step (Tick h) w' = Inr w'))"
proof (intro conjI allI impI)
  assume "state (game w) \<noteq> Question"
  then show "revealAnswer w = Inr w" by (rule revealAnswer_not_question)
next
  fix w' assume r: "revealAnswer w = Inr w'"
  show nq: "state (game w') \<noteq> Question"
  proof (cases "state (game w) = Question")
    case True
    with r show ?thesis by (simp add: revealAnswer_result(1))
  next
    case False
    with r show ?thesis by (simp add: revealAnswer_not_question)
  qed
  then show "revealAnswer w' = Inr w'" by (rule revealAnswer_not_question)
  fix h assume "state (game w) = Question \<and> timer (game w) = Some h"
  with r have "intervals w' = removeAll h (intervals w)"
    by (simp add: revealAnswer_result(3))
  then show "step (Tick h) w' = Inr w'" by simp
qed


lemma fl64_0: "fl64 0 = 0" by (simp add: fl64_def)
lemma fl64_1: "fl64 1 = 1" by code_simp
lemma fl64_1000: "fl64 1000 = 1000" by code_simp


lemma Math_round_of_int: "Math_round (of_int n) = n"
  unfolding Math_round_def by (rule floor_unique) simp_all

lemma timeBonus_full:
  "timeLimit q \<noteq> 0 \<Longrightarrow> answerTime p = Some (timeLimit q) \<Longrightarrow> timeBonus q p = 1000"
  using Math_round_of_int [of 1000] by (simp add: timeBonus_def fl64_1 fl64_1000)

lemma timeBonus_zero: "answerTime p = Some 0 \<Longrightarrow> timeBonus q p = 0"
  using Math_round_of_int [of 0] by (simp add: timeBonus_def fl64_0)

theorem reveal_idempotent_witness:
  "state (game (ex_world Reveal [] None)) \<noteq> Question \<and>
   revealAnswer (ex_world Reveal [] None) = Inr (ex_world Reveal [] None) \<and>
   (\<exists>w'. revealAnswer (ex_world Question [(1, ex_p ''ann'' 1 0 (Some 2) (Some 20))] (Some 0)) = Inr w' \<and>
      state (game w') = Reveal \<and> revealAnswer w' = Inr w' \<and> step (Tick 0) w' = Inr w')"
proof -
  let ?w = "ex_world Question [(1, ex_p ''ann'' 1 0 (Some 2) (Some 20))] (Some 0)"
  have 1: "state (game (ex_world Reveal [] None)) \<noteq> Question"
    by (simp add: ex_world_def)
  have 2: "state (game ?w) = Question \<and> timer (game ?w) = Some 0"
    by (simp add: ex_world_def)
  have 3: "current ((game (clearInterval (timer (game ?w)) ?w))\<lparr>timer := None, state := Reveal\<rparr>) = Some ex_q"
    by (simp add: ex_world_def current_def)
  obtain w' where w': "revealAnswer ?w = Inr w'"
    using 2 3 by (simp add: revealAnswer_def Let_def)
  from w' 2 have "state (game w') = Reveal" by (simp add: revealAnswer_result(1))
  moreover from w' 2 reveal_idempotent [of ?w]
  have "revealAnswer w' = Inr w' \<and> step (Tick 0) w' = Inr w'" by blast
  moreover from 1 reveal_idempotent [of "ex_world Reveal [] None"]
  have "revealAnswer (ex_world Reveal [] None) = Inr (ex_world Reveal [] None)" by blast
  ultimately show ?thesis using 1 w' by blast
qed

subsection \<open>Disconnects\<close>

text \<open>
  Claim C8. A player disconnect outside phase \<open>Lobby\<close> changes nothing: the player record
  with its score and answer, and every other part of the server state, stay as they were. In
  phase \<open>Lobby\<close> the player of the closing connection is removed.
\<close>

theorem disconnect_only_in_lobby:
  "(state (game w) \<noteq> Lobby \<longrightarrow> player_close c w = w) \<and>
   (state (game w) = Lobby \<and> playerId w c = Some pid \<longrightarrow>
      players (game (player_close c w)) = filter (\<lambda>kp. fst kp \<noteq> pid) (players (game w)) \<and>
      map_of (players (game (player_close c w))) pid = None)"
  by (auto simp: player_close_def Map_delete_def Let_def map_of_eq_None_iff split: option.splits)

theorem disconnect_only_in_lobby_witness:
  "state (game (ex_world Question [(1, ex_p ''ann'' 1 700 (Some 2) (Some 20))] (Some 0))) \<noteq> Lobby \<and>
   player_close 1 (ex_world Question [(1, ex_p ''ann'' 1 700 (Some 2) (Some 20))] (Some 0))
     = ex_world Question [(1, ex_p ''ann'' 1 700 (Some 2) (Some 20))] (Some 0) \<and>
   state (game (ex_world Lobby [(1, ex_p ''ann'' 1 0 None None), (2, ex_p ''bob'' 2 0 None None)] None)) = Lobby \<and>
   playerId (ex_world Lobby [(1, ex_p ''ann'' 1 0 None None), (2, ex_p ''bob'' 2 0 None None)] None) 1 = Some 1 \<and>
   players (game (player_close 1 (ex_world Lobby [(1, ex_p ''ann'' 1 0 None None), (2, ex_p ''bob'' 2 0 None None)] None)))
     = [(2, ex_p ''bob'' 2 0 None None)]"
  using disconnect_only_in_lobby [of "ex_world Question [(1, ex_p ''ann'' 1 700 (Some 2) (Some 20))] (Some 0)" 1 1]
    disconnect_only_in_lobby [of "ex_world Lobby [(1, ex_p ''ann'' 1 0 None None), (2, ex_p ''bob'' 2 0 None None)] None" 1 1]
  by (simp add: ex_world_def)

lemma current_cong:
  "questions g' = questions g \<Longrightarrow> currentQuestion g' = currentQuestion g \<Longrightarrow> current g' = current g"
  by (simp add: current_def)

lemma revealAnswer_Question:
  assumes "state (game w) = Question" and "current (game w) = Some q"
  shows "revealAnswer w =
    Inr (send_players
           (\<lambda>p. M_result (correct q) (answer p) (lastPoints p) (score p)
                  (int (length (questions (game w))) - 1 \<le> currentQuestion (game w)))
           (map (\<lambda>kp. (fst kp, reveal_player q (snd kp))) (players (game w)))
           (sendToHost
              (M_results (correct q) (distribution q (players (game w))) (options q)
                 (take 5 (getLeaderboard ((game w)\<lparr>timer := None, state := Reveal,
                     players := map (\<lambda>kp. (fst kp, reveal_player q (snd kp))) (players (game w))\<rparr>)))
                 (int (length (questions (game w))) - 1 \<le> currentQuestion (game w)))
              ((clearInterval (timer (game w)) w)\<lparr>game := (game w)\<lparr>timer := None, state := Reveal,
                     players := map (\<lambda>kp. (fst kp, reveal_player q (snd kp))) (players (game w))\<rparr>\<rparr>)))"
proof -
  have "current ((game (clearInterval (timer (game w)) w))\<lparr>timer := None, state := Reveal\<rparr>)
      = current (game w)"
    by (rule current_cong) simp_all
  with assms(2)
  have "current ((game (clearInterval (timer (game w)) w))\<lparr>timer := None, state := Reveal\<rparr>) = Some q"
    by simp
  then show ?thesis
    using assms(1) by (simp add: revealAnswer_def Let_def)
qed

lemma revealAnswer_players:
  assumes "state (game w) = Question" and "current (game w) = Some q"
    and "revealAnswer w = Inr w'"
  shows "players (game w') = map (\<lambda>kp. (fst kp, reveal_player q (snd kp))) (players (game w))"
  using assms(3) unfolding revealAnswer_Question [OF assms(1,2)] by auto

lemma revealAnswer_sent:
  assumes "state (game w) = Question" and "current (game w) = Some q"
    and "revealAnswer w = Inr w'"
  shows "\<exists>host_part. sent w' = sent w @ host_part @
     map (\<lambda>kp. (ws (snd kp), M_result (correct q) (answer (snd kp)) (lastPoints (snd kp))
                                (score (snd kp))
                                (int (length (questions (game w))) - 1 \<le> currentQuestion (game w))))
         (filter (\<lambda>kp. readyState w (ws (snd kp)) = 1)
                 (map (\<lambda>kp. (fst kp, reveal_player q (snd kp))) (players (game w))))"
  using assms(3) unfolding revealAnswer_Question [OF assms(1,2)]
  by (auto simp: sent_send_players sent_sendToHost)

lemma reveal_player_same [simp]:
  "name (reveal_player q p) = name p"
  "ws (reveal_player q p) = ws p"
  "answer (reveal_player q p) = answer p"
  "answerTime (reveal_player q p) = answerTime p"
  by (simp_all add: reveal_player_def Let_def split: option.splits)

lemma reveal_player_lastPoints:
  "lastPoints (reveal_player q p) =
     (case answer p of
        None \<Rightarrow> 0
      | Some a \<Rightarrow> if Some a \<noteq> correct q then 0 else 1000 + timeBonus q p)"
  by (simp add: reveal_player_def Let_def split: option.splits)

lemma reveal_player_score:
  "score (reveal_player q p) = score p + lastPoints (reveal_player q p)"
  by (simp add: reveal_player_def Let_def split: option.splits)

text \<open>
  Claim C1, as the code computes it. At reveal every player keeps the recorded answer; the
  points are \<open>0\<close> without an answer or with an answer other than the correct index, and
  otherwise \<open>1000\<close> plus \<^verbatim>\<open>Math.round((answerTime / timeLimit) * 1000)\<close> in double
  arithmetic: the quotient is rounded to a double, the product is rounded to a double, and
  the result is rounded to the nearest integer. The points are added to the score and are
  what the player's \<^verbatim>\<open>result\<close> message carries. A correct answer with the whole time
  limit remaining scores \<open>2000\<close>, with nothing remaining \<open>1000\<close>.
\<close>

theorem reveal_points:
  assumes "state (game w) = Question" and "current (game w) = Some q"
    and "i < length (players (game w))" and "players (game w) ! i = (k, p)"
  shows "\<exists>w' p'. revealAnswer w = Inr w' \<and>
      length (players (game w')) = length (players (game w)) \<and>
      players (game w') ! i = (k, p') \<and>
      answer p' = answer p \<and> answerTime p' = answerTime p \<and>
      score p' = score p + lastPoints p' \<and>
      lastPoints p' =
        (case answer p of
           None \<Rightarrow> 0
         | Some a \<Rightarrow>
             if Some a \<noteq> correct q then 0
             else 1000 + Math_round (fl64 (fl64 (of_int (case answerTime p of None \<Rightarrow> 0 | Some t \<Rightarrow> t)
                                                   / of_int (timeLimit q)) * 1000))) \<and>
      (answer p \<noteq> None \<and> answer p = correct q \<and> timeLimit q \<noteq> 0 \<and>
         answerTime p = Some (timeLimit q) \<longrightarrow> lastPoints p' = 2000) \<and>
      (answer p \<noteq> None \<and> answer p = correct q \<and> answerTime p = Some 0 \<longrightarrow> lastPoints p' = 1000) \<and>
      (readyState w (ws p) = 1 \<longrightarrow>
         (ws p, M_result (correct q) (answer p) (lastPoints p') (score p')
                  (int (length (questions (game w))) - 1 \<le> currentQuestion (game w)))
           \<in> set (sent w'))"
proof -
  let ?p' = "reveal_player q p"
  let ?ps' = "map (\<lambda>kp. (fst kp, reveal_player q (snd kp))) (players (game w))"
  obtain w' where w': "revealAnswer w = Inr w'"
    using revealAnswer_Question [OF assms(1,2)] by simp
  have ps: "players (game w') = ?ps'"
    using assms(1,2) w' by (rule revealAnswer_players)
  have len: "length (players (game w')) = length (players (game w))"
    by (simp add: ps)
  have nth: "players (game w') ! i = (k, ?p')"
    using assms(3,4) by (simp add: ps)
  have pts: "lastPoints ?p' =
        (case answer p of
           None \<Rightarrow> 0
         | Some a \<Rightarrow>
             if Some a \<noteq> correct q then 0
             else 1000 + Math_round (fl64 (fl64 (of_int (case answerTime p of None \<Rightarrow> 0 | Some t \<Rightarrow> t)
                                                   / of_int (timeLimit q)) * 1000)))"
    by (simp add: reveal_player_lastPoints timeBonus_def split: option.splits)
  have full: "answer p \<noteq> None \<and> answer p = correct q \<and> timeLimit q \<noteq> 0 \<and>
         answerTime p = Some (timeLimit q) \<longrightarrow> lastPoints ?p' = 2000"
    by (auto simp: reveal_player_lastPoints timeBonus_full split: option.splits)
  have zero: "answer p \<noteq> None \<and> answer p = correct q \<and> answerTime p = Some 0 \<longrightarrow> lastPoints ?p' = 1000"
    by (auto simp: reveal_player_lastPoints timeBonus_zero split: option.splits)
  have msg: "readyState w (ws p) = 1 \<longrightarrow>
         (ws p, M_result (correct q) (answer p) (lastPoints ?p') (score ?p')
                  (int (length (questions (game w))) - 1 \<le> currentQuestion (game w)))
           \<in> set (sent w')"
  proof
    assume open_p: "readyState w (ws p) = 1"
    let ?f = "\<lambda>p. M_result (correct q) (answer p) (lastPoints p) (score p)
                  (int (length (questions (game w))) - 1 \<le> currentQuestion (game w))"
    have "(k, ?p') \<in> set ?ps'"
      using assms(3) nth ps by (metis len nth_mem)
    with open_p have "(k, ?p') \<in> set (filter (\<lambda>kp. readyState w (ws (snd kp)) = 1) ?ps')"
      by simp
    then have "(\<lambda>kp. (ws (snd kp), ?f (snd kp))) (k, ?p')
        \<in> (\<lambda>kp. (ws (snd kp), ?f (snd kp))) ` set (filter (\<lambda>kp. readyState w (ws (snd kp)) = 1) ?ps')"
      by (rule imageI)
    moreover from revealAnswer_sent [OF assms(1,2) w'] obtain host_part where
      "sent w' = sent w @ host_part @
         map (\<lambda>kp. (ws (snd kp), ?f (snd kp))) (filter (\<lambda>kp. readyState w (ws (snd kp)) = 1) ?ps')"
      by blast
    ultimately have "(ws p, ?f ?p') \<in> set (sent w')"
      by simp
    then show "(ws p, M_result (correct q) (answer p) (lastPoints ?p') (score ?p')
                  (int (length (questions (game w))) - 1 \<le> currentQuestion (game w)))
           \<in> set (sent w')"
      by simp
  qed
  from w' len nth pts full zero msg reveal_player_score [of q p]
  show ?thesis by (intro exI [of _ w'] exI [of _ ?p']) simp
qed

text \<open>
  The bonus is not always \<open>round (1000 * answerTime / timeLimit)\<close>: the double nearest to
  \<open>201 / 400\<close> lies below it, its product with \<open>1000\<close> rounds to the double just below
  \<open>502.5\<close>, and \<^verbatim>\<open>Math.round\<close> gives \<open>502\<close>, where the exact quotient gives \<open>503\<close>.
\<close>

lemma bonus_201_400: "Math_round (fl64 (fl64 (201 / 400) * 1000)) = 502"
  by code_simp

lemma round_201_400: "round (1000 * 201 / 400 :: rat) = 503"
  by code_simp

theorem reveal_points_counterexample:
  "lastPoints (snd (hd (players (game (projr (revealAnswer ex_slow)))))) = 1502 \<and>
   (1502 :: int) \<noteq> 1000 + round (1000 * 201 / 400 :: rat)"
proof -
  have q: "state (game ex_slow) = Question" "current (game ex_slow) = Some (ex_q\<lparr>timeLimit := 400\<rparr>)"
    by (simp_all add: ex_slow_def ex_world_def current_def Let_def)
  have "players (game (projr (revealAnswer ex_slow)))
      = map (\<lambda>kp. (fst kp, reveal_player (ex_q\<lparr>timeLimit := 400\<rparr>) (snd kp))) (players (game ex_slow))"
    by (rule revealAnswer_players [OF q]) (simp add: revealAnswer_Question [OF q])
  moreover have "timeBonus (ex_q\<lparr>timeLimit := 400\<rparr>) (ex_p ''ann'' 1 0 (Some 2) (Some 201)) = 502"
    using bonus_201_400 by (simp add: timeBonus_def ex_p_def)
  ultimately have "lastPoints (snd (hd (players (game (projr (revealAnswer ex_slow)))))) = 1502"
    by (simp add: ex_slow_def ex_world_def Let_def reveal_player_lastPoints ex_p_def ex_q_def)
  moreover have "(1502 :: int) \<noteq> 1000 + round (1000 * 201 / 400 :: rat)"
    unfolding round_201_400 by simp
  ultimately show ?thesis by (rule conjI)
qed

theorem reveal_points_witness:
  "\<exists>w'. revealAnswer (ex_world Question [(1, ex_p ''ann'' 1 300 (Some 2) (Some 20)),
                                        (2, ex_p ''bob'' 2 300 (Some 3) (Some 20))] (Some 0)) = Inr w' \<and>
     map (\<lambda>kp. (lastPoints (snd kp), score (snd kp))) (players (game w')) = [(2000, 2300), (0, 300)]"
proof -
  let ?w = "ex_world Question [(1, ex_p ''ann'' 1 300 (Some 2) (Some 20)),
                               (2, ex_p ''bob'' 2 300 (Some 3) (Some 20))] (Some 0)"
  have q: "state (game ?w) = Question" "current (game ?w) = Some ex_q"
    by (simp_all add: ex_world_def current_def)
  have 0: "0 < length (players (game ?w))" "players (game ?w) ! 0 = (1, ex_p ''ann'' 1 300 (Some 2) (Some 20))"
    by (simp_all add: ex_world_def)
  have 1: "1 < length (players (game ?w))" "players (game ?w) ! 1 = (2, ex_p ''bob'' 2 300 (Some 3) (Some 20))"
    by (simp_all add: ex_world_def)
  from reveal_points [OF q 0] reveal_points [OF q 1]
  obtain w' pa pb where "revealAnswer ?w = Inr w'" "length (players (game w')) = 2"
    "players (game w') ! 0 = (1, pa)" "players (game w') ! 1 = (2, pb)"
    "lastPoints pa = 2000" "score pa = 2300" "lastPoints pb = 0" "score pb = 300"
    by (auto simp: ex_world_def ex_p_def ex_q_def)
  moreover from this have "players (game w') = [(1, pa), (2, pb)]"
    by (auto simp: list_eq_iff_nth_eq less_Suc_eq numeral_2_eq_2)
  ultimately show ?thesis by simp
qed

subsection \<open>The leaderboard\<close>

lemma Array_sort_Cons: "Array_sort cmp (x # xs) = insert_sorted cmp x (Array_sort cmp xs)"
  by (simp add: Array_sort_def)

lemma mset_insert_sorted: "mset (insert_sorted cmp x xs) = add_mset x (mset xs)"
  by (induction xs) simp_all

lemma mset_Array_sort: "mset (Array_sort cmp xs) = mset xs"
  by (induction xs) (simp_all add: Array_sort_def mset_insert_sorted)

lemma set_insert_sorted: "set (insert_sorted cmp x xs) = insert x (set xs)"
  by (induction xs) auto

lemma sorted_insert_sorted:
  fixes x :: "'a \<times> int"
  assumes "sorted_wrt (\<lambda>a b. snd b \<le> snd a) xs"
  shows "sorted_wrt (\<lambda>a b. snd b \<le> snd a) (insert_sorted (\<lambda>a b. snd b - snd a) x xs)"
  using assms
proof (induction xs)
  case Nil
  then show ?case by simp
next
  case (Cons y ys)
  show ?case
  proof (cases "snd y \<le> snd x")
    case True
    with Cons.prems show ?thesis by auto
  next
    case False
    with Cons show ?thesis by (auto simp: set_insert_sorted)
  qed
qed

lemma sorted_Array_sort:
  "sorted_wrt (\<lambda>a b. snd b \<le> snd a) (Array_sort (\<lambda>a b. snd b - snd a) (xs :: ('a \<times> int) list))"
  by (induction xs) (simp_all add: Array_sort_Cons sorted_insert_sorted, simp add: Array_sort_def)

lemma filter_insert_sorted:
  fixes x :: "'a \<times> int"
  shows "filter (\<lambda>e. snd e = s) (insert_sorted (\<lambda>a b. snd b - snd a) x xs)
    = filter (\<lambda>e. snd e = s) (x # xs)"
  by (induction xs) auto

lemma filter_Array_sort:
  "filter (\<lambda>e. snd e = s) (Array_sort (\<lambda>a b. snd b - snd a) (xs :: ('a \<times> int) list))
    = filter (\<lambda>e. snd e = s) xs"
proof (induction xs)
  case Nil
  show ?case by (simp add: Array_sort_def)
next
  case (Cons x xs)
  have "filter (\<lambda>e. snd e = s) (Array_sort (\<lambda>a b. snd b - snd a) (x # xs))
      = filter (\<lambda>e. snd e = s) (x # Array_sort (\<lambda>a b. snd b - snd a) xs)"
    by (simp only: Array_sort_Cons filter_insert_sorted)
  with Cons show ?case by simp
qed

text \<open>
  Claim C5. The leaderboard lists every player once, by score in descending order, and
  players with the same score stand in their join order. With \<open>A\<close>, \<open>B\<close>, \<open>C\<close> joined in
  this order and holding 300, 500 and 500 points it is \<open>B\<close>, \<open>C\<close>, \<open>A\<close>.
\<close>

theorem leaderboard_order:
  "sorted_wrt (\<lambda>a b. snd b \<le> snd a) (getLeaderboard g) \<and>
   mset (getLeaderboard g) = mset (map (\<lambda>kp. (name (snd kp), score (snd kp))) (players g)) \<and>
   (\<forall>s. filter (\<lambda>e. snd e = s) (getLeaderboard g)
        = filter (\<lambda>e. snd e = s) (map (\<lambda>kp. (name (snd kp), score (snd kp))) (players g))) \<and>
   getLeaderboard ex_final = [(''B'', 500), (''C'', 500), (''A'', 300)]"
proof -
  have eq: "map (\<lambda>(k, p). (name p, score p)) (players g)
      = map (\<lambda>kp. (name (snd kp), score (snd kp))) (players g)"
    by (simp add: case_prod_unfold)
  have "getLeaderboard ex_final = [(''B'', 500), (''C'', 500), (''A'', 300)]"
    by (simp add: getLeaderboard_def Array_sort_def ex_final_def ex_world_def ex_p_def)
  then show ?thesis
    unfolding getLeaderboard_def eq
    by (simp add: sorted_Array_sort mset_Array_sort filter_Array_sort)
qed

theorem leaderboard_order_witness:
  "sorted_wrt (\<lambda>a b. snd b \<le> snd a) (getLeaderboard ex_final) \<and>
   map fst (getLeaderboard ex_final) = [''B'', ''C'', ''A'']"
  using leaderboard_order [of ex_final] by simp

subsection \<open>Answers\<close>



lemma get_data_of_type:
  assumes "get msg ''type'' = Inr t" and "t \<noteq> JUndefined"
  shows "get msg ''data'' = Inr (get_opt msg ''data'')"
  using assms by (cases msg) (auto simp: get_def get_opt_def split: option.splits)


lemma revealAnswer_total:
  assumes "state (game w) = Question \<longrightarrow> current (game w) \<noteq> None"
  shows "\<exists>w'. revealAnswer w = Inr w'"
proof (cases "state (game w) = Question")
  case True
  with assms obtain q where "current (game w) = Some q" by auto
  with True show ?thesis by (simp add: revealAnswer_Question)
next
  case False
  then show ?thesis by (simp add: revealAnswer_not_question)
qed

lemma error_TypeError [simp]: "(e :: error) = TypeError"
  by (cases e)




lemmas string_eval =
  String_js.simps String_int_def Number_toString_def decimal.simps digitChar_def char_of_def
  bit_Suc_0_iff
  trim_def isWhiteSpace_def toLowerCase_def lowerChar_def parseInt_def parseInt_string_def
  isDigit_def digitVal_def






subsection \<open>Validation failures\<close>

lemma join_unfold:
  assumes "get msg ''type'' = Inr (JStr ''join'')"
  shows "player_message c (Some msg) w =
     (if \<not> truthy (data_pin msg) \<or> \<not> truthy (data_name msg)
      then Inr (send c (M_error ''PIN and name required'') w)
      else case String_js (data_pin msg) of
        Inl e \<Rightarrow> Inl (TypeError, w)
      | Inr s \<Rightarrow>
      if Some s \<noteq> pin (game w)
      then Inr (send c (M_error ''Invalid PIN'') w)
      else if state (game w) \<noteq> Lobby
      then Inr (send c (M_error ''Game already in progress'') w)
      else case data_name msg of
        JStr nm \<Rightarrow>
          if take 20 (trim nm) = []
          then Inr (send c (M_error ''Name cannot be empty'') w)
          else if \<exists>kp \<in> set (players (game w)).
                    toLowerCase (name (snd kp)) = toLowerCase (take 20 (trim nm))
          then Inr (send c (M_error ''Name already taken'') w)
          else Inr (sendToHost
                 (M_player_joined (take 20 (trim nm))
                    (length (Map_set (nextPlayerId w)
                       \<lparr> name = take 20 (trim nm), ws = c, score = 0, answer = None,
                         answerTime = None, lastPoints = 0 \<rparr> (players (game w))))
                    (names ((game w)\<lparr>players := Map_set (nextPlayerId w)
                       \<lparr> name = take 20 (trim nm), ws = c, score = 0, answer = None,
                         answerTime = None, lastPoints = 0 \<rparr> (players (game w))\<rparr>)))
                 (send c (M_joined (take 20 (trim nm)))
                    (w\<lparr> playerId := (playerId w)(c := Some (nextPlayerId w)),
                        nextPlayerId := nextPlayerId w + 1,
                        game := (game w)\<lparr>players := Map_set (nextPlayerId w)
                          \<lparr> name = take 20 (trim nm), ws = c, score = 0, answer = None,
                            answerTime = None, lastPoints = 0 \<rparr> (players (game w))\<rparr> \<rparr>)))
      | _ \<Rightarrow> Inl (TypeError, w))"
proof -
  have d: "get msg ''data'' = Inr (get_opt msg ''data'')"
    using assms by (rule get_data_of_type) simp
  have j: "player_message c (Some msg) w = join c msg w"
    using assms by (simp add: player_message_def)
  show ?thesis
  proof (cases "String_js (data_pin msg)")
    case (Inl e)
    then show ?thesis
      unfolding j by (simp add: join_def d data_pin_def data_name_def Let_def)
  next
    case (Inr s)
    then show ?thesis
      unfolding j
      by (cases "data_name msg") (simp_all add: join_def d data_pin_def data_name_def Let_def)
  qed
qed





text \<open>
  An answer with index 9 to a question with four options, from an open connection: the
  server stays as it was and has sent nothing, so no \<^verbatim>\<open>error\<close> reply exists. A join
  whose PIN is the object \<^verbatim>\<open>{"toString": 1}\<close>: the handler throws at \<^verbatim>\<open>String(pin)\<close>,
  and again nothing has been sent.
\<close>

lemma ex_asking_facts:
  "state (game ex_asking) = Question" "current (game ex_asking) = Some ex_q"
  "pin (game ex_asking) = Some ''4821''" "readyState ex_asking c = 1" "sent ex_asking = []"
  by (simp_all add: ex_asking_def ex_world_def current_def)


lemma join_msg_fields:
  "get (join_msg p n) ''type'' = Inr (JStr ''join'')"
  "data_pin (join_msg p n) = p" "data_name (join_msg p n) = n"
  by (simp_all add: join_msg_def data_pin_def data_name_def get_def get_opt_def truthy_def)

lemma ex_lobby_facts:
  "state (game ex_lobby) = Lobby" "pin (game ex_lobby) = Some ''4821''"
  "players (game ex_lobby) = [(1, ex_p ''ann'' 1 0 None None)]"
  "readyState ex_lobby c = 1" "sent ex_lobby = []"
  by (simp_all add: ex_lobby_def ex_world_def)


lemma ex_strings:
  "String_js (JNum ''4821'') = Inr ''4821''" "String_js (JStr s) = Inr s" "trim ''   '' = []"
  "take 20 (trim '' ANN '') = ''ANN''" "toLowerCase ''ANN'' = ''ann''" "toLowerCase ''ann'' = ''ann''"
  by (simp_all add: string_eval)


subsection \<open>The phases\<close>

lemma resetGame_game:
  "game (resetGame r src w) = (game w)\<lparr>
      pin := Some (String_int (Math_floor (fl64 (1000 + fl64 (r * 9000))))),
      state := Lobby, players := [],
      questions := (case src of Some new \<Rightarrow> new | None \<Rightarrow> loaded w),
      currentQuestion := - 1, timer := None, timeRemaining := 0, answerCount := 0\<rparr>"
  by (cases src) (simp_all add: resetGame_def Let_def)

lemma resetGame_fields [simp]:
  "nextPlayerId (resetGame r src w) = nextPlayerId w"
  "playerId (resetGame r src w) = playerId w"
  "readyState (resetGame r src w) = readyState w"
  "nextInterval (resetGame r src w) = nextInterval w"
  "sent (resetGame r src w) = sent w"
  "intervals (resetGame r src w) = intervals (clearInterval (timer (game w)) w)"
  by (simp_all add: resetGame_def Let_def)

lemma endGame_game: "game (endGame w) = (game w)\<lparr>state := Leaderboard\<rparr>"
  by (simp add: endGame_def Let_def)

lemma startQuestion_state:
  assumes "startQuestion w = Inr w'"
  shows "state (game w') = Question \<or> state (game w') = Leaderboard"
  using assms
  by (auto simp: startQuestion_def Let_def endGame_game split: if_splits option.splits)

lemma revealAnswer_state:
  assumes "revealAnswer w = Inr w'"
  shows "state (game w') = (if state (game w) = Question then Reveal else state (game w))"
  using assms revealAnswer_result(1) [of w w'] by (auto simp: revealAnswer_not_question)

lemma tick_state:
  assumes "tick w = Inr w'"
  shows "state (game w') = state (game w) \<or> (state (game w) = Question \<and> state (game w') = Reveal)"
proof (cases "timeRemaining (game w) - 1 \<le> 0")
  case False
  with assms show ?thesis by (auto simp: tick_def Let_def)
next
  case True
  with assms obtain w1 where "revealAnswer w1 = Inr w'" and "state (game w1) = state (game w)"
    by (auto simp: tick_def Let_def)
  with revealAnswer_state [of w1 w'] show ?thesis by auto
qed

lemma join_state:
  assumes "join c msg w = Inr w'"
  shows "state (game w') = state (game w)"
  using assms
  by (auto simp: join_def Let_def split: sum.splits if_splits js.splits)

lemma answer_message_state:
  assumes "answer_message c msg w = Inr w'"
  shows "state (game w') = state (game w) \<or> (state (game w) = Question \<and> state (game w') = Reveal)"
  using assms
  by (auto simp: answer_message_def Let_def dest!: revealAnswer_state
           split: option.splits if_splits sum.splits)

lemma player_message_state:
  assumes "player_message c raw w = Inr w'"
  shows "state (game w') = state (game w) \<or> (state (game w) = Question \<and> state (game w') = Reveal)"
  using assms join_state [of c _ w w'] answer_message_state [of c _ w w']
  by (auto simp: player_message_def split: option.splits sum.splits if_splits)

lemma host_message_state:
  assumes "host_message c raw r src w = Inr w'"
  shows "(is_reset (HostMessage c raw r src) \<and> state (game w') = Lobby) \<or>
         (\<not> is_reset (HostMessage c raw r src) \<and>
            (state (game w') = state (game w) \<or>
             state (game w) = Lobby \<and> state (game w') = Question \<or>
             state (game w) = Lobby \<and> state (game w') = Leaderboard \<or>
             state (game w) = Reveal \<and> state (game w') = Question \<or>
             state (game w) = Reveal \<and> state (game w') = Leaderboard))"
  using assms startQuestion_state [of w w']
  by (auto simp: host_message_def Let_def resetGame_game split: option.splits sum.splits if_splits)

lemma close_state [simp]:
  "state (game (host_close c w)) = state (game w)"
  "state (game (player_close c w)) = state (game w)"
  "state (game (handlePlayer c w)) = state (game w)"
  "state (game (csv_changed ev src w)) = state (game w)"
  "state (game (handleHost c r src w)) = Lobby"
  by (simp_all add: host_close_def player_close_def handlePlayer_def csv_changed_def
        handleHost_def Let_def sendToHost_def resetGame_game split: option.splits)

text \<open>
  The phase transitions of one reaction: the events that reset lead to \<open>Lobby\<close>; every other
  event keeps the phase or takes one of the five steps of the question cycle.
\<close>

lemma step_state:
  assumes "step e w = Inr w'"
  shows "(is_reset e \<and> state (game w') = Lobby) \<or>
         (\<not> is_reset e \<and>
            (state (game w') = state (game w) \<or>
             state (game w) = Lobby \<and> state (game w') = Question \<or>
             state (game w) = Lobby \<and> state (game w') = Leaderboard \<or>
             state (game w) = Question \<and> state (game w') = Reveal \<or>
             state (game w) = Reveal \<and> state (game w') = Question \<or>
             state (game w) = Reveal \<and> state (game w') = Leaderboard))"
proof (cases e)
  case (HostConnect c r src)
  with assms show ?thesis by auto
next
  case (HostMessage c raw r src)
  with assms host_message_state [of c raw r src w w'] show ?thesis by auto
next
  case (PlayerMessage c raw)
  with assms player_message_state [of c raw w w'] show ?thesis by auto
next
  case (Tick h)
  with assms tick_state [of w w'] show ?thesis by (auto split: if_splits)
qed (use assms in auto)

lemma leaderboard_terminal:
  assumes "state (game w) = Leaderboard" and "\<forall>e \<in> set es. \<not> is_reset e" and "run es w = Inr w'"
  shows "state (game w') = Leaderboard"
  using assms
proof (induction es arbitrary: w)
  case Nil
  then show ?case by simp
next
  case (Cons e es)
  from Cons.prems(3) obtain w1 where s: "step e w = Inr w1" and r: "run es w1 = Inr w'"
    by (auto split: sum.splits)
  from step_state [OF s] Cons.prems(1,2) have "state (game w1) = Leaderboard"
    by auto
  with Cons.IH [of w1] Cons.prems(2) r show ?case by simp
qed


subsection \<open>The end of the question bank\<close>

lemma getLeaderboard_cong: "players g' = players g \<Longrightarrow> getLeaderboard g' = getLeaderboard g"
  by (simp add: getLeaderboard_def)

lemma sent_broadcast:
  "sent (broadcast m w) =
     sent w @ map (\<lambda>kp. (ws (snd kp), m))
                  (filter (\<lambda>kp. readyState w (ws (snd kp)) = 1) (players (game w)))
            @ (case hostWs (game w) of None \<Rightarrow> []
               | Some h \<Rightarrow> if readyState w h = 1 then [(h, m)] else [])"
  by (simp add: broadcast_def sent_sendToHost sent_send_players split: option.splits)

lemma startQuestion_past_end:
  assumes "int (length (questions (game w))) \<le> currentQuestion (game w) + 1"
  shows "startQuestion w =
     Inr (endGame (w\<lparr>game := (game w)\<lparr>currentQuestion := currentQuestion (game w) + 1\<rparr>\<rparr>))"
  using assms by (simp add: startQuestion_def Let_def)

text \<open>
  Claim C6. When the host sends \<^verbatim>\<open>next\<close> in phase \<open>Reveal\<close> and the advanced cursor is
  past the end of the question bank, the session goes to phase \<open>Leaderboard\<close> in that
  reaction: the cursor and the phase are the only fields that change, the final standings are
  sent to every open player connection and to the host, and no countdown is started. From
  there no sequence of events without a reset leads to another phase.
\<close>

theorem next_past_end:
  assumes "get msg ''type'' = Inr (JStr ''next'')" and "state (game w) = Reveal"
    and "int (length (questions (game w))) \<le> currentQuestion (game w) + 1"
  shows "\<exists>w'. host_message c (Some msg) r src w = Inr w' \<and>
     game w' = (game w)\<lparr>currentQuestion := currentQuestion (game w) + 1, state := Leaderboard\<rparr> \<and>
     sent w' = sent w @ map (\<lambda>kp. (ws (snd kp), M_leaderboard (getLeaderboard (game w))))
                            (filter (\<lambda>kp. readyState w (ws (snd kp)) = 1) (players (game w)))
                      @ (case hostWs (game w) of None \<Rightarrow> []
                         | Some h \<Rightarrow> if readyState w h = 1
                                     then [(h, M_leaderboard (getLeaderboard (game w)))] else []) \<and>
     intervals w' = intervals w \<and>
     (\<forall>es w''. (\<forall>e \<in> set es. \<not> is_reset e) \<and> run es w' = Inr w'' \<longrightarrow>
                state (game w'') = Leaderboard)"
proof -
  let ?w1 = "w\<lparr>game := (game w)\<lparr>currentQuestion := currentQuestion (game w) + 1\<rparr>\<rparr>"
  let ?w' = "endGame ?w1"
  have r: "host_message c (Some msg) r src w = Inr ?w'"
    using assms by (simp add: host_message_def startQuestion_past_end)
  have g: "game ?w' = (game w)\<lparr>currentQuestion := currentQuestion (game w) + 1, state := Leaderboard\<rparr>"
    by (simp add: endGame_game)
  have lb: "getLeaderboard ((game ?w1)\<lparr>state := Leaderboard\<rparr>) = getLeaderboard (game w)"
    by (rule getLeaderboard_cong) simp
  have s: "sent ?w' = sent w @ map (\<lambda>kp. (ws (snd kp), M_leaderboard (getLeaderboard (game w))))
                            (filter (\<lambda>kp. readyState w (ws (snd kp)) = 1) (players (game w)))
                      @ (case hostWs (game w) of None \<Rightarrow> []
                         | Some h \<Rightarrow> if readyState w h = 1
                                     then [(h, M_leaderboard (getLeaderboard (game w)))] else [])"
    unfolding endGame_def Let_def lb by (simp add: sent_broadcast split: option.splits)
  have i: "intervals ?w' = intervals w"
    by (simp add: endGame_def Let_def)
  have "state (game ?w') = Leaderboard"
    by (simp add: g)
  then have t: "\<forall>es w''. (\<forall>e \<in> set es. \<not> is_reset e) \<and> run es ?w' = Inr w'' \<longrightarrow>
                state (game w'') = Leaderboard"
    using leaderboard_terminal [of ?w'] by blast
  from r g s i t show ?thesis by blast
qed

lemma ex_revealed_facts:
  "get next_msg ''type'' = Inr (JStr ''next'')"
  "state (game ex_revealed) = Reveal"
  "int (length (questions (game ex_revealed))) \<le> currentQuestion (game ex_revealed) + 1"
  "intervals ex_revealed = []" "sent ex_revealed = []" "hostWs (game ex_revealed) = Some 0"
  "readyState ex_revealed c = 1"
  "players (game ex_revealed) =
     [(1, ex_p ''ann'' 1 300 (Some 1) (Some 9)), (2, ex_p ''bob'' 2 1450 (Some 2) (Some 9))]"
  "getLeaderboard (game ex_revealed) = [(''bob'', 1450), (''ann'', 300)]"
  by (simp_all add: next_msg_def get_def ex_revealed_def ex_world_def getLeaderboard_def
        Array_sort_def ex_p_def)

theorem next_past_end_witness:
  "get next_msg ''type'' = Inr (JStr ''next'') \<and> state (game ex_revealed) = Reveal \<and>
   int (length (questions (game ex_revealed))) \<le> currentQuestion (game ex_revealed) + 1 \<and>
   (\<exists>w'. host_message 0 (Some next_msg) 0 None ex_revealed = Inr w' \<and>
      state (game w') = Leaderboard \<and>
      sent w' = [(1, M_leaderboard [(''bob'', 1450), (''ann'', 300)]),
                 (2, M_leaderboard [(''bob'', 1450), (''ann'', 300)]),
                 (0, M_leaderboard [(''bob'', 1450), (''ann'', 300)])] \<and>
      run [Tick 0, HostMessage 0 (Some next_msg) 0 None] w' = Inr w')"
proof -
  note f = ex_revealed_facts
  from next_past_end [OF f(1-3), of 0 0 None] obtain w' where
    r: "host_message 0 (Some next_msg) 0 None ex_revealed = Inr w'"
    and g: "game w' = (game ex_revealed)\<lparr>currentQuestion := currentQuestion (game ex_revealed) + 1,
                                           state := Leaderboard\<rparr>"
    and s: "sent w' = [(1, M_leaderboard [(''bob'', 1450), (''ann'', 300)]),
                 (2, M_leaderboard [(''bob'', 1450), (''ann'', 300)]),
                 (0, M_leaderboard [(''bob'', 1450), (''ann'', 300)])]"
    and i: "intervals w' = []"
    by (auto simp: f ex_p_def)
  from g have st: "state (game w') = Leaderboard" by simp
  have "run [Tick 0, HostMessage 0 (Some next_msg) 0 None] w' = Inr w'"
    using i st f(1) by (simp add: host_message_def)
  with r st s f(1-3) show ?thesis by blast
qed

subsection \<open>Joining\<close>

lemma Map_set_fresh: "k \<notin> fst ` set kps \<Longrightarrow> Map_set k v kps = kps @ [(k, v)]"
  by (induction kps) auto

text \<open>
  Claim C9. A \<^verbatim>\<open>join\<close> with the right PIN in phase \<open>Lobby\<close> whose name has more than 20
  characters after trimming is not rejected: provided the first 20 characters of the trimmed
  name are not taken (compared in lower case), a player with exactly these 20 characters as
  name is added, and the replies are \<^verbatim>\<open>joined\<close> to the sender and
  \<^verbatim>\<open>player-joined\<close> to the host, no \<^verbatim>\<open>error\<close>.
\<close>

theorem join_truncates_name:
  assumes "get msg ''type'' = Inr (JStr ''join'')"
    and "truthy (data_pin msg)"
    and "Some (String_js (data_pin msg)) = map_option Inr (pin (game w))"
    and "state (game w) = Lobby"
    and "data_name msg = JStr nm" and "20 < length (trim nm)"
    and "\<not> (\<exists>kp \<in> set (players (game w)).
              toLowerCase (name (snd kp)) = toLowerCase (take 20 (trim nm)))"
    and "nextPlayerId w \<notin> fst ` set (players (game w))"
  shows "\<exists>w'. player_message c (Some msg) w = Inr w' \<and>
      players (game w') = players (game w) @
         [(nextPlayerId w, \<lparr> name = take 20 (trim nm), ws = c, score = 0, answer = None,
                              answerTime = None, lastPoints = 0 \<rparr>)] \<and>
      length (take 20 (trim nm)) = 20 \<and>
      playerId w' c = Some (nextPlayerId w) \<and> nextPlayerId w' = nextPlayerId w + 1 \<and>
      sent w' = sent w
        @ (if readyState w c = 1 then [(c, M_joined (take 20 (trim nm)))] else [])
        @ (case hostWs (game w) of None \<Rightarrow> []
           | Some h \<Rightarrow> if readyState w h = 1
               then [(h, M_player_joined (take 20 (trim nm)) (length (players (game w)) + 1)
                           (names (game w) @ [take 20 (trim nm)]))]
               else [])"
proof -
  let ?n = "take 20 (trim nm)"
  let ?p = "\<lparr> name = ?n, ws = c, score = 0, answer = None, answerTime = None, lastPoints = 0 \<rparr>"
  let ?ps = "players (game w) @ [(nextPlayerId w, ?p)]"
  let ?w1 = "w\<lparr> playerId := (playerId w)(c := Some (nextPlayerId w)),
                 nextPlayerId := nextPlayerId w + 1,
                 game := (game w)\<lparr>players := ?ps\<rparr> \<rparr>"
  let ?w' = "sendToHost (M_player_joined ?n (length ?ps) (names ((game w)\<lparr>players := ?ps\<rparr>)))
               (send c (M_joined ?n) ?w1)"
  from assms(6) have "trim nm \<noteq> []" by auto
  then have nm: "nm \<noteq> []" by (auto simp: trim_def)
  from assms(6) have ne: "?n \<noteq> []" and len: "length ?n = 20" by auto
  have set: "Map_set (nextPlayerId w) ?p (players (game w)) = ?ps"
    using assms(8) by (rule Map_set_fresh)
  from assms(3) obtain s where pin: "String_js (data_pin msg) = Inr s" "pin (game w) = Some s"
    by (cases "pin (game w)") auto
  have r: "player_message c (Some msg) w = Inr ?w'"
    unfolding join_unfold [OF assms(1)] using assms(2,4,5,7) pin nm ne
    by (simp add: truthy_def set)
  have pl: "players (game ?w') = ?ps" by simp
  have pid: "playerId ?w' c = Some (nextPlayerId w)" "nextPlayerId ?w' = nextPlayerId w + 1"
    by simp_all
  have s: "sent ?w' = sent w
        @ (if readyState w c = 1 then [(c, M_joined ?n)] else [])
        @ (case hostWs (game w) of None \<Rightarrow> []
           | Some h \<Rightarrow> if readyState w h = 1
               then [(h, M_player_joined ?n (length (players (game w)) + 1)
                           (names (game w) @ [?n]))]
               else [])"
    by (simp add: sent_sendToHost sent_send names_def split: option.splits)
  from r pl len pid s show ?thesis by blast
qed

lemma ex_long_join_facts:
  "get ex_long_join ''type'' = Inr (JStr ''join'')"
  "truthy (data_pin ex_long_join)" "String_js (data_pin ex_long_join) = Inr ''4821''"
  "data_name ex_long_join = JStr ''  Maximilian Alexander the Third  ''"
  "trim ''  Maximilian Alexander the Third  '' = ''Maximilian Alexander the Third''"
  "toLowerCase ''Maximilian Alexander'' = ''maximilian alexander''"
  by (simp_all add: ex_long_join_def join_msg_fields truthy_def string_eval)

theorem join_truncates_name_witness:
  "20 < length (trim ''  Maximilian Alexander the Third  '') \<and>
   (\<exists>w'. player_message 3 (Some ex_long_join) ex_lobby = Inr w' \<and>
      map (\<lambda>kp. name (snd kp)) (players (game w')) = [''ann'', ''Maximilian Alexander''] \<and>
      sent w' = [(3, M_joined ''Maximilian Alexander''),
                 (0, M_player_joined ''Maximilian Alexander'' 2 [''ann'', ''Maximilian Alexander''])])"
proof -
  note f = ex_long_join_facts ex_lobby_facts ex_strings
  have l: "20 < length (trim ''  Maximilian Alexander the Third  '')"
    by (simp add: f)
  have d: "\<not> (\<exists>kp \<in> set (players (game ex_lobby)).
       toLowerCase (name (snd kp)) = toLowerCase (take 20 (trim ''  Maximilian Alexander the Third  '')))"
    by (simp add: f ex_p_def)
  have n: "nextPlayerId ex_lobby \<notin> fst ` set (players (game ex_lobby))"
    "nextPlayerId ex_lobby = 3" "hostWs (game ex_lobby) = Some 0" "names (game ex_lobby) = [''ann'']"
    by (simp_all add: ex_lobby_def ex_world_def names_def ex_p_def)
  have p: "Some (String_js (data_pin ex_long_join)) = map_option Inr (pin (game ex_lobby))"
    by (simp add: f)
  from join_truncates_name [OF f(1,2) p ex_lobby_facts(1) f(4) l d n(1), of 3]
  show ?thesis
    using l by (auto simp: f n ex_p_def)
qed

subsection \<open>Rounding to a double is monotone\<close>

lemma bitlen_pos: "0 < n \<Longrightarrow> bitlen n = 1 + bitlen (n div 2)"
  by (subst bitlen.simps) simp

lemma bitlen_nonpos: "n \<le> 0 \<Longrightarrow> bitlen n = 0"
  by (subst bitlen.simps) simp

lemma bitlen_bounds:
  "0 < n \<Longrightarrow> 1 \<le> bitlen n \<and> 2 ^ nat (bitlen n - 1) \<le> n \<and> n < 2 ^ nat (bitlen n)"
proof (induction n rule: bitlen.induct)
  case (1 n)
  show ?case
  proof (cases "n div 2 \<le> 0")
    case True
    with "1.prems" have "n = 1" by (simp add: pos_imp_zdiv_pos_iff)
    then show ?thesis by (simp add: bitlen_pos bitlen_nonpos)
  next
    case False
    with "1.IH" "1.prems" have ih: "1 \<le> bitlen (n div 2)"
      "2 ^ nat (bitlen (n div 2) - 1) \<le> n div 2" "n div 2 < 2 ^ nat (bitlen (n div 2))"
      by simp_all
    have b: "bitlen n = 1 + bitlen (n div 2)" using "1.prems" by (rule bitlen_pos)
    have "nat (bitlen (n div 2)) = Suc (nat (bitlen (n div 2) - 1))"
      using ih(1) by simp
    then have p2: "(2::int) ^ nat (bitlen (n div 2)) = 2 * 2 ^ nat (bitlen (n div 2) - 1)"
      by simp
    have "nat (bitlen n) = Suc (nat (bitlen (n div 2)))"
      using ih(1) b by simp
    then have p3: "(2::int) ^ nat (bitlen n) = 2 * 2 ^ nat (bitlen (n div 2))"
      by simp
    have p1: "(2::int) ^ nat (bitlen n - 1) = 2 ^ nat (bitlen (n div 2))"
      using b by simp
    from ih(2) have "2 * 2 ^ nat (bitlen (n div 2) - 1) \<le> n" by linarith
    then have "2 ^ nat (bitlen n - 1) \<le> n" unfolding p1 p2 .
    moreover from ih(3) have "n < 2 * 2 ^ nat (bitlen (n div 2))" by linarith
    then have "n < 2 ^ nat (bitlen n)" unfolding p3 .
    moreover have "1 \<le> bitlen n" using b ih(1) by simp
    ultimately show ?thesis by blast
  qed
qed


lemma bitlen_powi:
  assumes "0 < n"
  shows "(2::rat) powi (bitlen n - 1) \<le> of_int n" and "of_int n < (2::rat) powi (bitlen n)"
proof -
  from bitlen_bounds [OF assms] have b: "1 \<le> bitlen n"
    and l: "2 ^ nat (bitlen n - 1) \<le> n" and u: "n < 2 ^ nat (bitlen n)" by simp_all
  from l have "(of_int (2 ^ nat (bitlen n - 1)) :: rat) \<le> of_int n"
    by (simp only: of_int_le_iff)
  then show "(2::rat) powi (bitlen n - 1) \<le> of_int n"
    using b by (simp add: power_int_def)
  from u have "(of_int n :: rat) < of_int (2 ^ nat (bitlen n))"
    by (simp only: of_int_less_iff)
  then show "of_int n < (2::rat) powi (bitlen n)"
    using b by (simp add: power_int_def)
qed

lemma ilog2_bounds:
  assumes "0 < x"
  shows "2 powi (ilog2 x) \<le> x" and "x < 2 powi (ilog2 x + 1)"
proof -
  obtain p q where pq: "quotient_of x = (p, q)" by (cases "quotient_of x")
  then have q: "0 < q" by (rule quotient_of_denom_pos)
  from pq have x: "x = of_int p / of_int q" by (rule quotient_of_div)
  with assms q have p: "0 < p" by (simp add: zero_less_divide_iff)
  from x q have px: "of_int p = x * of_int q" by simp
  let ?k = "bitlen p - bitlen q"
  have "x * 2 powi (bitlen q - 1) \<le> x * of_int q"
    using bitlen_powi(1) [OF q] assms by (simp add: mult_left_mono)
  also have "\<dots> < 2 powi (bitlen p)"
    using bitlen_powi(2) [OF p] px by simp
  finally have "x < 2 powi (bitlen p) / 2 powi (bitlen q - 1)"
    by (simp add: pos_less_divide_eq)
  also have "\<dots> = 2 powi (?k + 1)"
    by (simp add: power_int_diff [symmetric] algebra_simps)
  finally have up: "x < 2 powi (?k + 1)" .
  have "2 powi (bitlen p - 1) \<le> x * of_int q"
    using bitlen_powi(1) [OF p] px by simp
  also have "\<dots> < x * 2 powi (bitlen q)"
    using bitlen_powi(2) [OF q] assms by (simp add: mult_strict_left_mono)
  finally have "2 powi (bitlen p - 1) / 2 powi (bitlen q) < x"
    by (simp add: pos_divide_less_eq)
  moreover have "2 powi (bitlen p - 1) / 2 powi (bitlen q) = (2::rat) powi (?k - 1)"
    by (simp add: power_int_diff [symmetric] algebra_simps)
  ultimately have low: "2 powi (?k - 1) < x" by simp
  have il: "ilog2 x = (if 2 powi ?k \<le> x then ?k else ?k - 1)"
    by (simp add: ilog2_def pq Let_def)
  show "2 powi (ilog2 x) \<le> x"
    using low by (simp add: il)
  show "x < 2 powi (ilog2 x + 1)"
    using up by (simp add: il not_le)
qed

lemma powi_2_mono: "a \<le> b \<Longrightarrow> (2::rat) powi a \<le> 2 powi b"
  by (rule power_int_increasing) simp_all

lemma powi_2_less_imp: "(2::rat) powi a < 2 powi b \<Longrightarrow> a < b"
  using powi_2_mono [of b a] by (cases "a < b") auto

lemma ilog2_unique:
  assumes "2 powi k \<le> x" and "x < 2 powi (k + 1)"
  shows "ilog2 x = k"
proof -
  have "(0::rat) < 2 powi k" by simp
  from this assms(1) have x: "0 < x" by (rule less_le_trans)
  from ilog2_bounds [OF x] assms have a: "(2::rat) powi (ilog2 x) < 2 powi (k + 1)"
    and b: "(2::rat) powi k < 2 powi (ilog2 x + 1)" by simp_all
  from a have "ilog2 x < k + 1" by (rule powi_2_less_imp)
  moreover from b have "k < ilog2 x + 1" by (rule powi_2_less_imp)
  ultimately show ?thesis by simp
qed

lemma rte_bounds: "\<lfloor>x\<rfloor> \<le> roundTiesToEven x" "roundTiesToEven x \<le> \<lfloor>x\<rfloor> + 1"
  by (simp_all add: roundTiesToEven_def Let_def)

lemma rte_of_int: "roundTiesToEven (of_int n) = n"
  by (simp add: roundTiesToEven_def Let_def)

lemma rte_ge:
  assumes "of_int n \<le> x"
  shows "n \<le> roundTiesToEven x"
proof -
  from assms have "n \<le> \<lfloor>x\<rfloor>" by (simp only: le_floor_iff)
  also have "\<dots> \<le> roundTiesToEven x" by (rule rte_bounds(1))
  finally show ?thesis .
qed

lemma rte_le:
  assumes "x \<le> of_int n"
  shows "roundTiesToEven x \<le> n"
proof (cases "x = of_int n")
  case True
  then show ?thesis by (simp add: rte_of_int)
next
  case False
  with assms have "x < of_int n" by simp
  then have "\<lfloor>x\<rfloor> < n" by (simp add: floor_less_iff)
  with rte_bounds(2) [of x] show ?thesis by simp
qed

lemma rte_mono:
  assumes "x \<le> y"
  shows "roundTiesToEven x \<le> roundTiesToEven y"
proof (cases "\<lfloor>x\<rfloor> = \<lfloor>y\<rfloor>")
  case True
  with assms show ?thesis
    by (auto simp: roundTiesToEven_def Let_def)
next
  case False
  with assms have "\<lfloor>x\<rfloor> < \<lfloor>y\<rfloor>" using floor_mono [of x y] by simp
  with rte_bounds(2) [of x] rte_bounds(1) [of y] show ?thesis by simp
qed

lemma fl64_pos:
  "0 < x \<Longrightarrow> fl64 x = of_int (roundTiesToEven (x / 2 powi (ilog2 x - 52))) * 2 powi (ilog2 x - 52)"
  by (simp add: fl64_def Let_def)

lemma fl64_binade:
  assumes "2 powi k \<le> x" and "x < 2 powi (k + 1)"
  shows "2 powi k \<le> fl64 x" and "fl64 x \<le> 2 powi (k + 1)"
proof -
  have "(0::rat) < 2 powi k" by simp
  from this assms(1) have x: "0 < x" by (rule less_le_trans)
  have k: "ilog2 x = k" using assms by (rule ilog2_unique)
  let ?e = "(2::rat) powi (k - 52)"
  let ?m = "roundTiesToEven (x / ?e)"
  have e: "0 < ?e" by simp
  have f: "fl64 x = of_int ?m * ?e" using fl64_pos [OF x] by (simp add: k)
  have lo: "(2::rat) powi k = of_int (2 ^ 52) * ?e"
    by (simp add: power_int_diff)
  have hi: "(2::rat) powi (k + 1) = of_int (2 ^ 53) * ?e"
    by (simp add: power_int_diff power_int_add)
  from assms(1) have "of_int (2 ^ 52) \<le> x / ?e"
    unfolding lo by (simp add: pos_le_divide_eq)
  then have "2 ^ 52 \<le> ?m" by (rule rte_ge)
  then have "(of_int (2 ^ 52) :: rat) \<le> of_int ?m" by (simp only: of_int_le_iff)
  then show "2 powi k \<le> fl64 x"
    unfolding lo f using e by (simp only: mult_le_cancel_right_pos)
  from assms(2) have "x / ?e \<le> of_int (2 ^ 53)"
    unfolding hi by (simp add: pos_divide_le_eq)
  then have "?m \<le> 2 ^ 53" by (rule rte_le)
  then have "(of_int ?m :: rat) \<le> of_int (2 ^ 53)" by (simp only: of_int_le_iff)
  then show "fl64 x \<le> 2 powi (k + 1)"
    unfolding hi f using e by (simp only: mult_le_cancel_right_pos)
qed

lemma fl64_mono_pos:
  assumes "0 < x" and "x \<le> y"
  shows "fl64 x \<le> fl64 y"
proof -
  from assms have y: "0 < y" by simp
  note bx = ilog2_bounds [OF assms(1)] and bnd = ilog2_bounds [OF y]
  from bx(1) assms(2) bnd(2) have "(2::rat) powi (ilog2 x) < 2 powi (ilog2 y + 1)" by simp
  then have le: "ilog2 x \<le> ilog2 y" using powi_2_less_imp by fastforce
  show ?thesis
  proof (cases "ilog2 x = ilog2 y")
    case True
    let ?e = "(2::rat) powi (ilog2 y - 52)"
    have e: "0 < ?e" by simp
    from assms(2) have "x / ?e \<le> y / ?e" using e by (simp add: divide_right_mono)
    then have "roundTiesToEven (x / ?e) \<le> roundTiesToEven (y / ?e)" by (rule rte_mono)
    then have "(of_int (roundTiesToEven (x / ?e)) :: rat) \<le> of_int (roundTiesToEven (y / ?e))"
      by (simp only: of_int_le_iff)
    then have "of_int (roundTiesToEven (x / ?e)) * ?e \<le> of_int (roundTiesToEven (y / ?e)) * ?e"
      using e by (simp only: mult_le_cancel_right_pos)
    then show ?thesis
      by (simp only: fl64_pos [OF assms(1)] fl64_pos [OF y] True)
  next
    case False
    with le have "ilog2 x + 1 \<le> ilog2 y" by simp
    then have "(2::rat) powi (ilog2 x + 1) \<le> 2 powi (ilog2 y)" by (rule powi_2_mono)
    with fl64_binade(2) [OF bx] fl64_binade(1) [OF bnd] show ?thesis by simp
  qed
qed

lemma fl64_nonneg: "0 \<le> x \<Longrightarrow> 0 \<le> fl64 x"
proof (cases "x = 0")
  case True
  then show ?thesis by (simp add: fl64_def)
next
  case False
  assume "0 \<le> x"
  with False have x: "0 < x" by simp
  have "(0::rat) \<le> 2 powi (ilog2 x)" by simp
  also have "\<dots> \<le> fl64 x" using ilog2_bounds [OF x] by (rule fl64_binade(1))
  finally show ?thesis .
qed

lemma fl64_mono:
  assumes "0 \<le> x" and "x \<le> y"
  shows "fl64 x \<le> fl64 y"
proof (cases "x = 0")
  case True
  with assms fl64_nonneg [of y] show ?thesis by (simp add: fl64_def)
next
  case False
  with assms have "0 < x" by simp
  then show ?thesis using assms(2) by (rule fl64_mono_pos)
qed

lemma fl64_values:
  "fl64 ((1 - 1 / 2 ^ 53) * 9000) = 9000 - 1 / 2 ^ 39"
  "fl64 (1000 + (9000 - 1 / 2 ^ 39)) = 10000 - 1 / 2 ^ 39"
  "fl64 1000 = 1000"
  by code_simp+

lemma pin_range:
  assumes "0 \<le> r" and "r \<le> 1 - 1 / 2 ^ 53"
  shows "1000 \<le> Math_floor (fl64 (1000 + fl64 (r * 9000)))"
    and "Math_floor (fl64 (1000 + fl64 (r * 9000))) \<le> 9999"
proof -
  let ?y = "fl64 (r * 9000)"
  from assms(1) have r0: "0 \<le> r * 9000" by simp
  then have y0: "0 \<le> ?y" by (rule fl64_nonneg)
  from assms(2) have "r * 9000 \<le> (1 - 1 / 2 ^ 53) * 9000" by simp
  with r0 have "?y \<le> fl64 ((1 - 1 / 2 ^ 53) * 9000)" by (rule fl64_mono)
  then have y1: "?y \<le> 9000 - 1 / 2 ^ 39" by (simp only: fl64_values)
  from y0 have "fl64 1000 \<le> fl64 (1000 + ?y)" by (intro fl64_mono) simp_all
  then have lo: "1000 \<le> fl64 (1000 + ?y)" by (simp only: fl64_values)
  from y0 y1 have "fl64 (1000 + ?y) \<le> fl64 (1000 + (9000 - 1 / 2 ^ 39))"
    by (intro fl64_mono) simp_all
  then have hi: "fl64 (1000 + ?y) \<le> 10000 - 1 / 2 ^ 39" by (simp only: fl64_values)
  from lo show "1000 \<le> Math_floor (fl64 (1000 + ?y))"
    by (simp add: Math_floor_def le_floor_iff)
  have "fl64 (1000 + ?y) < 10000" using hi by simp
  then have "\<lfloor>fl64 (1000 + ?y)\<rfloor> < 10000" by (simp add: floor_less_iff)
  then show "Math_floor (fl64 (1000 + ?y)) \<le> 9999" by (simp add: Math_floor_def)
qed

subsection \<open>The join code\<close>

lemma isDigit_digitChar: "d < 10 \<Longrightarrow> isDigit (digitChar d)"
  by (simp add: isDigit_def digitChar_def)

lemma decimal_nat:
  "decimal (int k) = (if k < 10 then [digitChar k]
                      else decimal (int (k div 10)) @ [digitChar (k mod 10)])"
  by (subst decimal.simps) (simp add: zdiv_int zmod_int nat_mod_distrib)

lemma decimal_four_digits:
  assumes "1000 \<le> n" and "n \<le> 9999"
  shows "decimal (int n) = [digitChar (n div 1000), digitChar (n div 100 mod 10),
                            digitChar (n div 10 mod 10), digitChar (n mod 10)]"
proof -
  have a: "\<not> n < 10" "\<not> n div 10 < 10" "\<not> n div 10 div 10 < 10" "n div 10 div 10 div 10 < 10"
    using assms by simp_all
  have b: "n div 10 div 10 = n div 100" "n div 10 div 10 div 10 = n div 1000"
    "n div 100 div 10 = n div 1000"
    by (simp_all add: div_mult2_eq [symmetric])
  show ?thesis
    by (subst decimal_nat, simp only: a if_False,
        subst decimal_nat, simp only: a if_False,
        subst decimal_nat, simp only: a if_False,
        subst decimal_nat, simp only: a if_True) (simp add: b)
qed

lemma String_int_small:
  assumes "0 \<le> n" and "n \<le> 2 ^ 53"
  shows "String_int n = decimal (int (nat n))"
  using assms by (simp add: String_int_def Number_toString_def)

lemma String_int_four_digits:
  assumes "1000 \<le> n" and "n \<le> 9999"
  shows "length (String_int n) = 4" and "list_all isDigit (String_int n)"
proof -
  from assms have n: "1000 \<le> nat n" "nat n \<le> 9999" by simp_all
  from assms have s: "String_int n = decimal (int (nat n))" by (intro String_int_small) simp_all
  show "length (String_int n) = 4"
    by (simp only: s decimal_four_digits [OF n]) simp
  have "nat n div 1000 < 10" using n by simp
  then show "list_all isDigit (String_int n)"
    by (simp only: s decimal_four_digits [OF n]) (simp add: isDigit_digitChar)
qed

lemma digitVal_digitChar: "d < 10 \<Longrightarrow> digitVal (digitChar d) = int d"
  by (simp add: digitVal_def digitChar_def)

lemma digitChar_plain:
  assumes "d < 10"
  shows "\<not> isWhiteSpace (digitChar d)" and "digitChar d \<noteq> CHR ''-''" and "digitChar d \<noteq> CHR ''+''"
proof -
  have c: "of_char (digitChar d) = 48 + d"
    using assms by (simp add: digitChar_def)
  then show "\<not> isWhiteSpace (digitChar d)"
    using assms by (simp add: isWhiteSpace_def)
  show "digitChar d \<noteq> CHR ''-''"
  proof
    assume "digitChar d = CHR ''-''"
    then have "of_char (digitChar d) = (of_char (CHR ''-'') :: nat)" by simp
    with c show False by simp
  qed
  show "digitChar d \<noteq> CHR ''+''"
  proof
    assume "digitChar d = CHR ''+''"
    then have "of_char (digitChar d) = (of_char (CHR ''+'') :: nat)" by simp
    with c show False by simp
  qed
qed


lemma digits_sum:
  "m div 1000 * 1000 + m div 100 mod 10 * 100 + m div 10 mod 10 * 10 + m mod 10 = (m::nat)"
proof -
  have a: "m div 100 = m div 1000 * 10 + m div 100 mod 10"
    using div_mult_mod_eq [of "m div 100" 10] by (simp add: div_mult2_eq [symmetric])
  have b: "m div 10 = m div 100 * 10 + m div 10 mod 10"
    using div_mult_mod_eq [of "m div 10" 10] by (simp add: div_mult2_eq [symmetric])
  have c: "m = m div 10 * 10 + m mod 10" by simp
  from a have "m div 100 * 100 = m div 1000 * 1000 + m div 100 mod 10 * 100" by linarith
  moreover from b have "m div 10 * 10 = m div 100 * 100 + m div 10 mod 10 * 10" by linarith
  ultimately show ?thesis using c by linarith
qed

lemma parseInt_four_digits:
  assumes "1000 \<le> n" and "n \<le> 9999"
  shows "parseInt_string (String_int n) = Some n"
proof -
  define m where "m = nat n"
  from assms have m: "1000 \<le> m" "m \<le> 9999" and n: "n = int m" by (simp_all add: m_def)
  from assms have s: "String_int n = decimal (int m)"
    unfolding m_def by (intro String_int_small) simp_all
  define d3 d2 d1 d0 where "d3 = m div 1000" and "d2 = m div 100 mod 10"
    and "d1 = m div 10 mod 10" and "d0 = m mod 10"
  have d: "d3 < 10" "d2 < 10" "d1 < 10" "d0 < 10"
    using m by (simp_all add: d3_def d2_def d1_def d0_def)
  have dec: "decimal (int m) = [digitChar d3, digitChar d2, digitChar d1, digitChar d0]"
    unfolding d3_def d2_def d1_def d0_def using m by (rule decimal_four_digits)
  have "d3 * 1000 + d2 * 100 + d1 * 10 + d0 = m"
    unfolding d3_def d2_def d1_def d0_def by (rule digits_sum)
  then have "int (d3 * 1000 + d2 * 100 + d1 * 10 + d0) = int m" by simp
  then have v: "((int d3 * 10 + int d2) * 10 + int d1) * 10 + int d0 = n"
    unfolding n by (simp add: algebra_simps)
  let ?ds = "[digitChar d3, digitChar d2, digitChar d1, digitChar d0]"
  have w: "dropWhile isWhiteSpace ?ds = ?ds"
    by (simp add: digitChar_plain(1) [OF d(1)])
  have neg: "(?ds \<noteq> [] \<and> hd ?ds = CHR ''-'') = False"
    by (simp add: digitChar_plain(2) [OF d(1)])
  have s2: "(if ?ds \<noteq> [] \<and> (hd ?ds = CHR ''-'' \<or> hd ?ds = CHR ''+'') then tl ?ds else ?ds) = ?ds"
    by (simp add: digitChar_plain(2,3) [OF d(1)])
  have t: "takeWhile isDigit ?ds = ?ds"
    by (simp add: isDigit_digitChar d)
  have f: "foldl (\<lambda>acc c. acc * 10 + digitVal c) 0 ?ds = n"
    using v by (simp add: digitVal_digitChar d)
  show ?thesis
    unfolding s dec parseInt_string_def Let_def w neg s2 t f by simp
qed

lemma four_digit_code_pin:
  assumes "0 \<le> r" and "r \<le> 1 - 1 / 2 ^ 53"
  shows "four_digit_code (Some (String_int (Math_floor (fl64 (1000 + fl64 (r * 9000))))))"
  using pin_range [OF assms]
  by (simp add: four_digit_code_def String_int_four_digits parseInt_four_digits)

lemma fresh_resetGame:
  assumes "0 \<le> r" and "r \<le> 1 - 1 / 2 ^ 53"
  shows "fresh_lobby (game (resetGame r src w))"
  using four_digit_code_pin [OF assms] by (simp add: fresh_lobby_def resetGame_game)

lemma intervals_resetGame:
  "intervals (resetGame r src w) =
     (case timer (game w) of None \<Rightarrow> intervals w | Some h \<Rightarrow> removeAll h (intervals w))"
  by (simp add: intervals_clearInterval)

lemma removeAll_only: "set xs \<subseteq> {h} \<Longrightarrow> removeAll h xs = []"
  by (induction xs) auto

lemma timer_cancelled:
  assumes "intervals w' =
     (case timer (game w) of None \<Rightarrow> intervals w | Some h \<Rightarrow> removeAll h (intervals w))"
  shows "\<forall>h. timer (game w) = Some h \<longrightarrow> h \<notin> set (intervals w')"
    and "set (intervals w) \<subseteq> set_option (timer (game w)) \<longrightarrow> intervals w' = []"
  using assms by (auto split: option.splits simp: removeAll_only)


lemma handleHost_game:
  "game (handleHost c r src w) = (game (resetGame r src w))\<lparr>hostWs := Some c\<rparr>"
  by (cases src) (simp_all add: handleHost_def Let_def resetGame_game)

lemma handleHost_intervals: "intervals (handleHost c r src w) = intervals (resetGame r src w)"
  by (simp add: handleHost_def Let_def intervals_clearInterval split: option.splits)

lemma host_message_reset:
  assumes "get msg ''type'' = Inr (JStr ''reset'')"
  shows "host_message c (Some msg) r src w =
           Inr (send c (M_lobby (pin (game (resetGame r src w))) []) (resetGame r src w))"
  using assms by (simp add: host_message_def Let_def)

lemma step_reset:
  assumes "step e w = Inr w'" and "is_reset e"
  shows "\<exists>h. game w' = (game (resetGame (random_of e) src0 w))\<lparr>hostWs := h, questions := questions (game w')\<rparr>"
    and "intervals w' =
      (case timer (game w) of None \<Rightarrow> intervals w | Some h \<Rightarrow> removeAll h (intervals w))"
proof -
  have "(\<exists>h. game w' = (game (resetGame (random_of e) src0 w))\<lparr>hostWs := h, questions := questions (game w')\<rparr>) \<and>
        intervals w' =
      (case timer (game w) of None \<Rightarrow> intervals w | Some h \<Rightarrow> removeAll h (intervals w))"
  proof (cases e)
    case (HostConnect c r src)
    with assms(1) have w': "w' = handleHost c r src w" by simp
    have "game w' = (game (resetGame r src0 w))\<lparr>hostWs := Some c, questions := questions (game w')\<rparr>"
      by (simp add: w' handleHost_game resetGame_game)
    then show ?thesis
      using HostConnect by (auto simp: w' handleHost_intervals intervals_clearInterval)
  next
    case (HostMessage c raw r src)
    with assms(2) obtain msg where raw: "raw = Some msg" and t: "get msg ''type'' = Inr (JStr ''reset'')"
      by (auto split: option.splits)
    from assms(1) have w': "w' = send c (M_lobby (pin (game (resetGame r src w))) []) (resetGame r src w)"
      by (simp add: HostMessage raw host_message_reset [OF t])
    have "game w' = (game (resetGame r src0 w))\<lparr>hostWs := hostWs (game w), questions := questions (game w')\<rparr>"
      by (simp add: w' resetGame_game)
    then show ?thesis
      using HostMessage by (auto simp: w' intervals_clearInterval)
  qed (use assms(2) in simp_all)
  then show "\<exists>h. game w' = (game (resetGame (random_of e) src0 w))\<lparr>hostWs := h, questions := questions (game w')\<rparr>"
    and "intervals w' =
      (case timer (game w) of None \<Rightarrow> intervals w | Some h \<Rightarrow> removeAll h (intervals w))"
    by blast+
qed

lemma fresh_lobby_update [simp]:
  "fresh_lobby (g\<lparr>hostWs := h, questions := qs\<rparr>) = fresh_lobby g"
  by (simp add: fresh_lobby_def)

text \<open>
  Claim C7. \<^verbatim>\<open>Math.random()\<close> returns a double in \<open>[0, 1)\<close>, hence at most
  \<open>1 - 2\<^sup>-\<^sup>5\<^sup>3\<close>. After \<open>resetGame\<close> the join code is a string of four digits that reads
  as a number in \<open>[1000, 9999]\<close>, there are no players, the cursor is \<open>-1\<close>, the phase is
  \<open>Lobby\<close>, the answer count is \<open>0\<close>, and the countdown interval of the session is no
  longer scheduled. The same holds after every event that resets, and an event that takes the
  session into \<open>Lobby\<close> from another phase is such an event.
\<close>

theorem reset_fresh_lobby:
  assumes "0 \<le> r" and "r \<le> 1 - 1 / 2 ^ 53"
  shows "fresh_lobby (game (resetGame r src w)) \<and>
     (\<forall>h. timer (game w) = Some h \<longrightarrow> h \<notin> set (intervals (resetGame r src w))) \<and>
     (set (intervals w) \<subseteq> set_option (timer (game w)) \<longrightarrow> intervals (resetGame r src w) = []) \<and>
     (\<forall>e w'. step e w = Inr w' \<and> random_of e = r \<and>
         (is_reset e \<or> state (game w) \<noteq> Lobby \<and> state (game w') = Lobby) \<longrightarrow>
         is_reset e \<and> fresh_lobby (game w') \<and>
         (\<forall>h. timer (game w) = Some h \<longrightarrow> h \<notin> set (intervals w')) \<and>
         (set (intervals w) \<subseteq> set_option (timer (game w)) \<longrightarrow> intervals w' = []))"
proof -
  have 1: "fresh_lobby (game (resetGame r src w))"
    using assms by (rule fresh_resetGame)
  note 2 = timer_cancelled [OF intervals_resetGame [of r src w]]
  have 3: "is_reset e \<and> fresh_lobby (game w') \<and>
         (\<forall>h. timer (game w) = Some h \<longrightarrow> h \<notin> set (intervals w')) \<and>
         (set (intervals w) \<subseteq> set_option (timer (game w)) \<longrightarrow> intervals w' = [])"
    if h: "step e w = Inr w'" "random_of e = r"
      "is_reset e \<or> state (game w) \<noteq> Lobby \<and> state (game w') = Lobby" for e w'
  proof -
    from step_state [OF h(1)] h(3) have re: "is_reset e" by auto
    from step_reset(1) [OF h(1) re, of None] obtain hw where
      g: "game w' = (game (resetGame (random_of e) None w))\<lparr>hostWs := hw, questions := questions (game w')\<rparr>"
      by blast
    have "fresh_lobby (game w') = fresh_lobby (game (resetGame (random_of e) None w))"
      using arg_cong [OF g, of fresh_lobby] by (simp only: fresh_lobby_update)
    with fresh_resetGame [OF assms, of None w] h(2) have "fresh_lobby (game w')" by simp
    with re timer_cancelled [OF step_reset(2) [OF h(1) re]] show ?thesis by blast
  qed
  from 1 2 3 show ?thesis by blast
qed

lemma ex_half:
  "(0::rat) \<le> 1 / 2" "(1::rat) / 2 \<le> 1 - 1 / 2 ^ 53"
  "Math_floor (fl64 (1000 + fl64 (1 / 2 * 9000))) = 5500"
  by simp_all code_simp

lemma ex_pin_5500: "String_int 5500 = ''5500''"
  by (simp add: string_eval)

text \<open>
  Beyond \<open>2^53\<close> a number prints with the digits that identify it among the doubles, and
  from \<open>10^21\<close> on in exponent form.
\<close>

lemma String_int_large:
  "String_int (2 ^ 64) = ''18446744073709552000''"
  "String_int (10 ^ 21) = ''1e+21''"
  by code_simp+

theorem reset_fresh_lobby_witness:
  "(0::rat) \<le> 1 / 2 \<and> (1::rat) / 2 \<le> 1 - 1 / 2 ^ 53 \<and>
   timer (game ex_asking) = Some 0 \<and> intervals ex_asking = [0] \<and>
   fresh_lobby (game (resetGame (1 / 2) None ex_asking)) \<and>
   pin (game (resetGame (1 / 2) None ex_asking)) = Some ''5500'' \<and>
   intervals (resetGame (1 / 2) None ex_asking) = [] \<and>
   is_reset (HostMessage 0 (Some ex_reset_msg) (1 / 2) None) \<and>
   (\<exists>w'. step (HostMessage 0 (Some ex_reset_msg) (1 / 2) None) ex_asking = Inr w' \<and>
      fresh_lobby (game w') \<and> intervals w' = [])"
proof -
  have t: "timer (game ex_asking) = Some 0" "intervals ex_asking = [0]"
    by (simp_all add: ex_asking_def ex_world_def)
  then have sub: "set (intervals ex_asking) \<subseteq> set_option (timer (game ex_asking))"
    by simp
  have p: "pin (game (resetGame (1 / 2) None ex_asking)) = Some ''5500''"
    by (simp only: resetGame_game ex_half(3) ex_pin_5500) simp
  have ty: "get ex_reset_msg ''type'' = Inr (JStr ''reset'')"
    by (simp add: ex_reset_msg_def get_def)
  then have re: "is_reset (HostMessage 0 (Some ex_reset_msg) (1 / 2) None)"
    by simp
  obtain w' where s: "step (HostMessage 0 (Some ex_reset_msg) (1 / 2) None) ex_asking = Inr w'"
    using host_message_reset [OF ty] by simp
  note r = reset_fresh_lobby [OF ex_half(1,2), of None ex_asking]
  from r have a: "fresh_lobby (game (resetGame (1 / 2) None ex_asking))" by blast
  from r sub have b: "intervals (resetGame (1 / 2) None ex_asking) = []" by blast
  from r s re sub have c: "fresh_lobby (game w') \<and> intervals w' = []"
    by (metis random_of.simps(2))
  from ex_half(1,2) t a p b re s c show ?thesis by blast
qed


subsection \<open>A new host connection\<close>

text \<open>
  Claim C10. A new host connection resets the session in whatever phase it is: the players
  of the old session are sent \<^verbatim>\<open>host-disconnected\<close> first (those whose connection is
  open, in join order), then the connection becomes the host, the players with their scores
  are gone, the countdown is cancelled, a join code is drawn, the phase is \<open>Lobby\<close>, and the
  new host is sent the lobby with that code and no players.
\<close>

theorem host_connect_resets:
  "step (HostConnect c r src) w = Inr (handleHost c r src w) \<and>
   sent (handleHost c r src w) =
     sent w @ map (\<lambda>kp. (ws (snd kp), M_host_disconnected))
                  (filter (\<lambda>kp. readyState w (ws (snd kp)) = 1) (players (game w)))
            @ (if readyState w c = 1
               then [(c, M_lobby (Some (String_int (Math_floor (fl64 (1000 + fl64 (r * 9000)))))) [])]
               else []) \<and>
   pin (game (handleHost c r src w))
     = Some (String_int (Math_floor (fl64 (1000 + fl64 (r * 9000))))) \<and>
   players (game (handleHost c r src w)) = [] \<and>
   state (game (handleHost c r src w)) = Lobby \<and>
   hostWs (game (handleHost c r src w)) = Some c \<and>
   timer (game (handleHost c r src w)) = None \<and>
   currentQuestion (game (handleHost c r src w)) = - 1 \<and>
   answerCount (game (handleHost c r src w)) = 0 \<and>
   (\<forall>h. timer (game w) = Some h \<longrightarrow> h \<notin> set (intervals (handleHost c r src w))) \<and>
   (0 \<le> r \<and> r \<le> 1 - 1 / 2 ^ 53 \<longrightarrow> fresh_lobby (game (handleHost c r src w)))"
proof -
  have g: "game (handleHost c r src w) = (game (resetGame r src w))\<lparr>hostWs := Some c\<rparr>"
    by (rule handleHost_game)
  have s: "sent (handleHost c r src w) =
     sent w @ map (\<lambda>kp. (ws (snd kp), M_host_disconnected))
                  (filter (\<lambda>kp. readyState w (ws (snd kp)) = 1) (players (game w)))
            @ (if readyState w c = 1
               then [(c, M_lobby (Some (String_int (Math_floor (fl64 (1000 + fl64 (r * 9000)))))) [])]
               else [])"
    by (simp add: handleHost_def Let_def sent_send sent_send_players resetGame_game names_def)
  have i: "\<forall>h. timer (game w) = Some h \<longrightarrow> h \<notin> set (intervals (handleHost c r src w))"
    by (rule timer_cancelled(1)) (simp add: handleHost_intervals intervals_clearInterval)
  have f: "0 \<le> r \<and> r \<le> 1 - 1 / 2 ^ 53 \<longrightarrow> fresh_lobby (game (handleHost c r src w))"
    using fresh_resetGame [of r src w] by (simp add: g fresh_lobby_def)
  from s i f show ?thesis
    by (simp add: g resetGame_game)
qed

lemma ex_pin_half: "String_int (Math_floor (fl64 (1000 + fl64 (1 / 2 * 9000)))) = ''5500''"
  by (simp only: ex_half(3) ex_pin_5500)

theorem host_connect_resets_witness:
  "state (game ex_asking) = Question \<and>
   sent (handleHost 5 (1 / 2) None ex_asking)
     = [(1, M_host_disconnected), (2, M_host_disconnected), (5, M_lobby (Some ''5500'') [])] \<and>
   players (game (handleHost 5 (1 / 2) None ex_asking)) = [] \<and>
   state (game (handleHost 5 (1 / 2) None ex_asking)) = Lobby \<and>
   pin (game (handleHost 5 (1 / 2) None ex_asking)) = Some ''5500'' \<and>
   fresh_lobby (game (handleHost 5 (1 / 2) None ex_asking)) \<and>
   intervals (handleHost 5 (1 / 2) None ex_asking) = []"
proof -
  note h = host_connect_resets [of 5 "1 / 2" None ex_asking, unfolded ex_pin_half]
  have e: "sent ex_asking = []" "readyState ex_asking 5 = 1"
    "filter (\<lambda>kp. readyState ex_asking (ws (snd kp)) = 1) (players (game ex_asking))
       = players (game ex_asking)"
    "map (\<lambda>kp. (ws (snd kp), M_host_disconnected)) (players (game ex_asking))
       = [(1, M_host_disconnected), (2, M_host_disconnected)]"
    by (simp_all add: ex_asking_def ex_world_def ex_p_def)
  have t: "timer (game ex_asking) = Some 0" "intervals ex_asking = [0]"
    by (simp_all add: ex_asking_def ex_world_def)
  from h have "sent (handleHost 5 (1 / 2) None ex_asking) =
     sent ex_asking @ map (\<lambda>kp. (ws (snd kp), M_host_disconnected))
                  (filter (\<lambda>kp. readyState ex_asking (ws (snd kp)) = 1) (players (game ex_asking)))
            @ (if readyState ex_asking 5 = 1 then [(5, M_lobby (Some ''5500'') [])] else [])"
    by blast
  then have 1: "sent (handleHost 5 (1 / 2) None ex_asking)
     = [(1, M_host_disconnected), (2, M_host_disconnected), (5, M_lobby (Some ''5500'') [])]"
    unfolding e by simp
  from h have 2: "pin (game (handleHost 5 (1 / 2) None ex_asking)) = Some ''5500''"
    by blast
  from h ex_half(1,2) have 3: "fresh_lobby (game (handleHost 5 (1 / 2) None ex_asking))"
    by blast
  have 4: "intervals (handleHost 5 (1 / 2) None ex_asking) = []"
    by (simp add: handleHost_intervals intervals_clearInterval t)
  from h have 5: "players (game (handleHost 5 (1 / 2) None ex_asking)) = []"
    "state (game (handleHost 5 (1 / 2) None ex_asking)) = Lobby" by blast+
  from 1 2 3 4 5 ex_asking_facts(1) show ?thesis by blast
qed

end
